theory Spec2Isabelle
  imports Main "HOL-Library.Word"
begin

unbundle bit_operations_syntax

section \<open>The digiwin contract: values, storage and the host ledger\<close>

text \<open>
  The contract is the Clarity program embedded in \<^verbatim>\<open>scripts/digiwin-driver.ts\<close>
  (\<^verbatim>\<open>define-public create-game\<close>, \<^verbatim>\<open>define-public guess\<close> and the read-only
  accessors). Clarity's \<^verbatim>\<open>uint\<close> is an unsigned 128-bit integer whose arithmetic does
  not wrap: an overflow, an underflow or a division by zero is a runtime error that
  aborts the whole transaction. Unsigned integers are modelled as \<open>nat\<close> with these
  checks written out.
\<close>

datatype principal = Contract | Account nat

datatype runtime_error = ArithmeticUnderflow | ArithmeticOverflow | DivisionByZero

text \<open>
  \<open>Err n\<close> is the response \<^verbatim>\<open>(err un)\<close>, \<open>ErrErr n\<close> is the nested response
  \<^verbatim>\<open>(err (err un))\<close>, and \<open>Aborted r\<close> is a runtime error, which yields no response
  at all. \<open>Inr v\<close> is \<^verbatim>\<open>(ok v)\<close>.
\<close>

datatype error = Err nat | ErrErr nat | Aborted runtime_error

definition ERR_UNAUTHORIZED :: error where "ERR_UNAUTHORIZED = Err 100"
definition ERR_GAME_NOT_FOUND :: error where "ERR_GAME_NOT_FOUND = Err 101"
definition ERR_GAME_ALREADY_WON :: error where "ERR_GAME_ALREADY_WON = Err 102"
definition ERR_INVALID_GUESS :: error where "ERR_INVALID_GUESS = Err 103"
definition ERR_TRANSFER_FAILED :: error where "ERR_TRANSFER_FAILED = Err 104"
definition ERR_INVALID_PARAMS :: error where "ERR_INVALID_PARAMS = Err 105"
definition ERR_GAME_EXPIRED :: error where "ERR_GAME_EXPIRED = Err 106"
definition ERR_ALREADY_GUESSED :: error where "ERR_ALREADY_GUESSED = Err 107"
definition ERR_TOO_MANY_GUESSES :: error where "ERR_TOO_MANY_GUESSES = Err 108"

subsection \<open>Checked unsigned arithmetic\<close>

definition uint_max :: nat where
  "uint_max = 2 ^ 128 - 1"

definition uint_add :: "nat \<Rightarrow> nat \<Rightarrow> error + nat" where
  "uint_add a b = (if uint_max < a + b then Inl (Aborted ArithmeticOverflow) else Inr (a + b))"

definition uint_sub :: "nat \<Rightarrow> nat \<Rightarrow> error + nat" where
  "uint_sub a b = (if a < b then Inl (Aborted ArithmeticUnderflow) else Inr (a - b))"

definition uint_mod :: "nat \<Rightarrow> nat \<Rightarrow> error + nat" where
  "uint_mod a b = (if b = 0 then Inl (Aborted DivisionByZero) else Inr (a mod b))"

subsection \<open>Buffers\<close>

text \<open>
  \<^verbatim>\<open>slice?\<close> is \<^verbatim>\<open>none\<close> when the positions are out of order, the right one is
  beyond the end or the left one is not a position of the sequence,
  \<^verbatim>\<open>as-max-len?\<close> is \<^verbatim>\<open>none\<close> when the sequence is longer than the bound, and
  \<^verbatim>\<open>buff-to-uint-le\<close> reads a buffer as a little-endian number.
\<close>

definition slice :: "'a list \<Rightarrow> nat \<Rightarrow> nat \<Rightarrow> 'a list option" where
  "slice xs l r =
     (if l \<le> r \<and> r \<le> length xs \<and> l < length xs then Some (take (r - l) (drop l xs))
      else None)"

definition as_max_len :: "'a list \<Rightarrow> nat \<Rightarrow> 'a list option" where
  "as_max_len xs n = (if length xs \<le> n then Some xs else None)"

fun buff_to_uint_le :: "8 word list \<Rightarrow> nat" where
  "buff_to_uint_le [] = 0"
| "buff_to_uint_le (b # bs) = unat b + 256 * buff_to_uint_le bs"

subsection \<open>Chain context\<close>

text \<open>
  What the host gives a call: \<^verbatim>\<open>block-height\<close> and
  \<^verbatim>\<open>(get-block-info? header-hash h)\<close>, which is \<^verbatim>\<open>none\<close> for a block the
  chain does not have.
\<close>

record chain =
  block_height :: nat
  header_hash :: "nat \<Rightarrow> 8 word list option"

subsection \<open>Storage\<close>

record game =
  creator :: principal
  secret_number :: nat
  min_number :: nat
  max_number :: nat
  entry_fee :: nat
  prize_pool :: nat
  guess_count :: nat
  winner :: "principal option"
  status :: string
  created_at :: nat

text \<open>An entry of the per-game list: \<^verbatim>\<open>{player, guess, timestamp}\<close>.\<close>

record attempt =
  player :: principal
  guessed :: nat
  timestamp :: nat

text \<open>
  The data variable \<^verbatim>\<open>total-games\<close>, the three data maps, and the STX balances of
  the host ledger, which a transaction changes together with the contract's storage.
\<close>

record state =
  total_games :: nat
  games :: "nat \<rightharpoonup> game"
  player_guesses :: "nat \<times> principal \<rightharpoonup> nat list"
  game_guesses :: "nat \<rightharpoonup> attempt list"
  balances :: "principal \<Rightarrow> nat"

definition init_state :: "(principal \<Rightarrow> nat) \<Rightarrow> state" where
  "init_state bal =
     \<lparr>total_games = 0, games = Map.empty, player_guesses = Map.empty,
      game_guesses = Map.empty, balances = bal\<rparr>"

subsection \<open>The host's STX transfer\<close>

text \<open>
  \<^verbatim>\<open>(stx-transfer? amount sender recipient)\<close> as the Clarity reference defines it:
  \<^verbatim>\<open>(err u3)\<close> for a zero amount, \<^verbatim>\<open>(err u2)\<close> when sender and recipient are the
  same principal, \<^verbatim>\<open>(err u1)\<close> when the sender's balance is too small, checked in
  this order. Both call sites of the contract pass the current \<^verbatim>\<open>tx-sender\<close> as
  the sender, so \<^verbatim>\<open>(err u4)\<close> (sender is not \<^verbatim>\<open>tx-sender\<close>) cannot arise.
\<close>

definition stx_transfer ::
  "nat \<Rightarrow> principal \<Rightarrow> principal \<Rightarrow> (principal \<Rightarrow> nat) \<Rightarrow> nat + (principal \<Rightarrow> nat)" where
  "stx_transfer amount sender recipient bal =
     (if amount = 0 then Inl 3
      else if sender = recipient then Inl 2
      else if bal sender < amount then Inl 1
      else Inr (bal(sender := bal sender - amount, recipient := bal recipient + amount)))"

text \<open>
  A public function commits its writes only when it returns \<^verbatim>\<open>(ok ...)\<close>; an
  \<^verbatim>\<open>(err ...)\<close> response or a runtime error discards every write the call made,
  transfers included.
\<close>

definition define_public ::
  "(state \<Rightarrow> (error + 'a) \<times> state) \<Rightarrow> state \<Rightarrow> (error + 'a) \<times> state" where
  "define_public body s =
     (case body s of
        (Inl e, _) \<Rightarrow> (Inl e, s)
      | (Inr v, s') \<Rightarrow> (Inr v, s'))"

section \<open>Public functions\<close>

subsection \<open>create-game\<close>

text \<open>
  The \<^verbatim>\<open>let\<close> bindings are evaluated in order, before the body: the header hash of
  block \<^verbatim>\<open>block-height - 1\<close>, then \<^verbatim>\<open>range\<close>, the 16-byte prefix of the hash, the
  seed and the secret. The body's \<^verbatim>\<open>asserts!\<close> on the range comes after them.
\<close>

definition create_game_body ::
  "principal \<Rightarrow> chain \<Rightarrow> nat \<Rightarrow> nat \<Rightarrow> nat \<Rightarrow> state \<Rightarrow> (error + nat) \<times> state" where
  "create_game_body tx_sender ch min_n max_n fee s =
     (let game_id = total_games s in
      (case uint_sub (block_height ch) 1 of Inl e \<Rightarrow> (Inl e, s) | Inr prev \<Rightarrow>
      (case header_hash ch prev of None \<Rightarrow> (Inl (Err 109), s) | Some block_hash \<Rightarrow>
      (case uint_sub max_n min_n of Inl e \<Rightarrow> (Inl e, s) | Inr width \<Rightarrow>
      (case uint_add width 1 of Inl e \<Rightarrow> (Inl e, s) | Inr range_n \<Rightarrow>
      (case slice block_hash 0 16 of None \<Rightarrow> (Inl (Err 111), s) | Some hash_bytes \<Rightarrow>
      (case as_max_len hash_bytes 16 of None \<Rightarrow> (Inl (Err 112), s) | Some hash_bytes_16 \<Rightarrow>
      (let random_seed = buff_to_uint_le hash_bytes_16 XOR block_height ch in
      (case uint_mod random_seed range_n of Inl e \<Rightarrow> (Inl e, s) | Inr r \<Rightarrow>
      (case uint_add r min_n of Inl e \<Rightarrow> (Inl e, s) | Inr secret \<Rightarrow>
      (if \<not> min_n \<le> max_n then (Inl ERR_INVALID_PARAMS, s)
       else
        (let s1 = s\<lparr>games := (games s)(game_id \<mapsto>
                   \<lparr>creator = tx_sender, secret_number = secret, min_number = min_n,
                    max_number = max_n, entry_fee = fee, prize_pool = 0, guess_count = 0,
                    winner = None, status = ''active'', created_at = block_height ch\<rparr>)\<rparr>
         in (case uint_add game_id 1 of Inl e \<Rightarrow> (Inl e, s1) | Inr n \<Rightarrow>
               (Inr game_id, s1\<lparr>total_games := n\<rparr>))))))))))))))"

definition create_game ::
  "principal \<Rightarrow> chain \<Rightarrow> nat \<Rightarrow> nat \<Rightarrow> nat \<Rightarrow> state \<Rightarrow> (error + nat) \<times> state" where
  "create_game tx_sender ch min_n max_n fee =
     define_public (create_game_body tx_sender ch min_n max_n fee)"

subsection \<open>guess\<close>

text \<open>The entry fee goes from the caller to the contract, unless it is zero.\<close>

definition pay_entry_fee :: "principal \<Rightarrow> nat \<Rightarrow> state \<Rightarrow> (error + bool) \<times> state" where
  "pay_entry_fee tx_sender fee s =
     (if 0 < fee then
        (case stx_transfer fee tx_sender Contract (balances s) of
           Inl e \<Rightarrow> (Inl (Err e), s)
         | Inr bal \<Rightarrow> (Inr True, s\<lparr>balances := bal\<rparr>))
      else (Inr True, s))"

text \<open>
  The branch taken when the number is the secret: the contract pays the pool plus this
  guess's fee to the caller, then the game is closed. The \<^verbatim>\<open>print\<close> of the win has
  no effect on storage and is left out.
\<close>

definition settle_win :: "principal \<Rightarrow> nat \<Rightarrow> game \<Rightarrow> state \<Rightarrow> (error + bool) \<times> state" where
  "settle_win tx_sender game_id g s =
     (case uint_add (prize_pool g) (entry_fee g) of
        Inl e \<Rightarrow> (Inl e, s)
      | Inr final_pool \<Rightarrow>
          (case stx_transfer final_pool Contract tx_sender (balances s) of
             Inl e \<Rightarrow> (Inl (Err e), s)
           | Inr bal \<Rightarrow>
               (let s1 = s\<lparr>balances := bal\<rparr> in
                (case uint_add (guess_count g) 1 of
                   Inl e \<Rightarrow> (Inl e, s1)
                 | Inr n \<Rightarrow>
                     (Inr True,
                      s1\<lparr>games := (games s1)(game_id \<mapsto>
                            g\<lparr>prize_pool := 0, guess_count := n, winner := Some tx_sender,
                              status := ''won''\<rparr>)\<rparr>)))))"

text \<open>The other branch: the fee joins the pool and the guess is counted.\<close>

definition continue_game :: "nat \<Rightarrow> game \<Rightarrow> state \<Rightarrow> (error + bool) \<times> state" where
  "continue_game game_id g s =
     (case uint_add (prize_pool g) (entry_fee g) of
        Inl e \<Rightarrow> (Inl e, s)
      | Inr pool \<Rightarrow>
          (case uint_add (guess_count g) 1 of
             Inl e \<Rightarrow> (Inl e, s)
           | Inr n \<Rightarrow>
               (Inr False,
                s\<lparr>games := (games s)(game_id \<mapsto>
                      g\<lparr>prize_pool := pool, guess_count := n\<rparr>)\<rparr>)))"

text \<open>
  Both lists take the new entry, each within its bound: ten guesses for a player on a
  game, a thousand entries for a game.
\<close>

definition record_guess ::
  "principal \<Rightarrow> chain \<Rightarrow> nat \<Rightarrow> nat \<Rightarrow> nat list \<Rightarrow> attempt list \<Rightarrow> state
     \<Rightarrow> (error + bool) \<times> state" where
  "record_guess tx_sender ch game_id number player_guess_list current_guesses s =
     (case as_max_len (player_guess_list @ [number]) 10 of
        None \<Rightarrow> (Inl ERR_TOO_MANY_GUESSES, s)
      | Some pl \<Rightarrow>
          (let s1 = s\<lparr>player_guesses := (player_guesses s)((game_id, tx_sender) \<mapsto> pl)\<rparr>
           in (case as_max_len
                      (current_guesses @
                         [\<lparr>player = tx_sender, guessed = number,
                           timestamp = block_height ch\<rparr>])
                      1000 of
                 None \<Rightarrow> (Inl ERR_TOO_MANY_GUESSES, s1)
               | Some gl \<Rightarrow>
                   (Inr True, s1\<lparr>game_guesses := (game_guesses s1)(game_id \<mapsto> gl)\<rparr>))))"

text \<open>
  The whole body, in the source's order: load the game and the two lists, check the
  status, check the range, charge the fee, record the guess, then compare with the
  secret.
\<close>

definition guess_body ::
  "principal \<Rightarrow> chain \<Rightarrow> nat \<Rightarrow> nat \<Rightarrow> state \<Rightarrow> (error + bool) \<times> state" where
  "guess_body tx_sender ch game_id number s =
     (case games s game_id of
        None \<Rightarrow> (Inl ERR_GAME_NOT_FOUND, s)
      | Some g \<Rightarrow>
          (let current_guesses = (case game_guesses s game_id of None \<Rightarrow> [] | Some l \<Rightarrow> l);
               player_guess_list =
                 (case player_guesses s (game_id, tx_sender) of None \<Rightarrow> [] | Some l \<Rightarrow> l)
           in
             if status g \<noteq> ''active'' then (Inl ERR_GAME_ALREADY_WON, s)
             else if \<not> (min_number g \<le> number \<and> number \<le> max_number g)
               then (Inl ERR_INVALID_GUESS, s)
             else
               (case pay_entry_fee tx_sender (entry_fee g) s of
                  (Inl e, s1) \<Rightarrow> (Inl e, s1)
                | (Inr _, s1) \<Rightarrow>
                    (case record_guess tx_sender ch game_id number
                            player_guess_list current_guesses s1 of
                       (Inl e, s2) \<Rightarrow> (Inl e, s2)
                     | (Inr _, s2) \<Rightarrow>
                         (if number = secret_number g then settle_win tx_sender game_id g s2
                          else continue_game game_id g s2)))))"

definition guess ::
  "principal \<Rightarrow> chain \<Rightarrow> nat \<Rightarrow> nat \<Rightarrow> state \<Rightarrow> (error + bool) \<times> state" where
  "guess tx_sender ch game_id number = define_public (guess_body tx_sender ch game_id number)"

section \<open>Read-only functions\<close>

text \<open>
  \<^verbatim>\<open>(get field (map-get? games id))\<close> on an optional tuple is \<^verbatim>\<open>none\<close> when the
  tuple is \<^verbatim>\<open>none\<close> and \<^verbatim>\<open>(some v)\<close> for the field's value \<open>v\<close> otherwise.
\<close>

definition get_game_info :: "nat \<Rightarrow> state \<Rightarrow> game option" where
  "get_game_info game_id s = games s game_id"

definition get_game_winner :: "nat \<Rightarrow> state \<Rightarrow> principal option option" where
  "get_game_winner game_id s = map_option winner (games s game_id)"

definition get_guess_count :: "nat \<Rightarrow> state \<Rightarrow> nat option" where
  "get_guess_count game_id s = map_option guess_count (games s game_id)"

definition get_prize_pool :: "nat \<Rightarrow> state \<Rightarrow> nat option" where
  "get_prize_pool game_id s = map_option prize_pool (games s game_id)"

definition get_total_games :: "state \<Rightarrow> error + nat" where
  "get_total_games s = Inr (total_games s)"

text \<open>
  \<^verbatim>\<open>ERR_GAME_NOT_FOUND\<close> is already \<^verbatim>\<open>(err u101)\<close>, so the missing-game branch
  \<^verbatim>\<open>(err ERR_GAME_NOT_FOUND)\<close> is the nested \<^verbatim>\<open>(err (err u101))\<close>.
\<close>

definition is_game_active :: "nat \<Rightarrow> state \<Rightarrow> error + bool" where
  "is_game_active game_id s =
     (case games s game_id of
        Some g \<Rightarrow> Inr (status g = ''active'')
      | None \<Rightarrow> Inl (ErrErr 101))"

definition get_player_guesses :: "nat \<Rightarrow> principal \<Rightarrow> state \<Rightarrow> nat list" where
  "get_player_guesses game_id p s =
     (case player_guesses s (game_id, p) of None \<Rightarrow> [] | Some l \<Rightarrow> l)"

section \<open>Transactions\<close>

text \<open>
  The ledger processes calls one after the other. A call into the contract comes from
  an account: the contract's own principal is \<^verbatim>\<open>tx-sender\<close> only inside its
  \<^verbatim>\<open>as-contract\<close> expressions. Accounts also move STX among themselves and to the
  contract outside the game.
\<close>

datatype call =
    CreateGame nat chain nat nat nat
  | Guess nat chain nat nat
  | StxTransfer nat principal nat

fun step :: "call \<Rightarrow> state \<Rightarrow> state" where
  "step (CreateGame a ch min_n max_n fee) s = snd (create_game (Account a) ch min_n max_n fee s)"
| "step (Guess a ch game_id number) s = snd (guess (Account a) ch game_id number s)"
| "step (StxTransfer a recipient amount) s =
     (case stx_transfer amount (Account a) recipient (balances s) of
        Inl _ \<Rightarrow> s
      | Inr bal \<Rightarrow> s\<lparr>balances := bal\<rparr>)"

definition run :: "call list \<Rightarrow> state \<Rightarrow> state" where
  "run cs s = fold step cs s"

text \<open>The ids that the successful \<^verbatim>\<open>create-game\<close> calls of a sequence return, in order.\<close>

fun created_ids :: "call list \<Rightarrow> state \<Rightarrow> nat list" where
  "created_ids [] s = []"
| "created_ids (CreateGame a ch min_n max_n fee # cs) s =
     (case fst (create_game (Account a) ch min_n max_n fee s) of
        Inl _ \<Rightarrow> []
      | Inr i \<Rightarrow> [i])
     @ created_ids cs (step (CreateGame a ch min_n max_n fee) s)"
| "created_ids (c # cs) s = created_ids cs (step c s)"

section \<open>Notions used in the properties\<close>

text \<open>The game's list of attempts, empty when none is stored (\<^verbatim>\<open>current-guesses\<close>).\<close>

definition log_of :: "state \<Rightarrow> nat \<Rightarrow> attempt list" where
  "log_of s game_id = (case game_guesses s game_id of None \<Rightarrow> [] | Some l \<Rightarrow> l)"

text \<open>The balances once an account has paid a fee to the contract; a zero fee moves nothing.\<close>

definition fee_paid :: "principal \<Rightarrow> nat \<Rightarrow> (principal \<Rightarrow> nat) \<Rightarrow> principal \<Rightarrow> nat" where
  "fee_paid c fee bal =
     (if fee = 0 then bal else bal(c := bal c - fee, Contract := bal Contract + fee))"

text \<open>
  The secret as the specification words it: \<open>minNumber + (seed mod range)\<close> with
  \<open>range = maxNumber - minNumber + 1\<close> and the seed the exclusive-or of a value derived
  from the previous block's header hash with the current counter.
\<close>

definition spec_secret :: "nat \<Rightarrow> nat \<Rightarrow> nat \<Rightarrow> nat \<Rightarrow> nat" where
  "spec_secret hash_value counter min_n max_n =
     min_n + (hash_value XOR counter) mod (max_n - min_n + 1)"

text \<open>The sum of the prize pools of the first \<open>n\<close> game ids.\<close>

definition locked_in :: "(nat \<rightharpoonup> game) \<Rightarrow> nat \<Rightarrow> nat" where
  "locked_in gm n = (\<Sum>i<n. case gm i of None \<Rightarrow> 0 | Some g \<Rightarrow> prize_pool g)"

text \<open>
  The invariant of the storage: every secret lies in its range, game ids are below the
  counter, every game counts exactly the entries of its list, a game without a fee has
  an empty pool and is active, a won game has an empty pool, and the contract holds at
  least the sum of the pools.
\<close>

definition wf_state :: "state \<Rightarrow> bool" where
  "wf_state s \<longleftrightarrow>
     (\<forall>i g. games s i = Some g \<longrightarrow>
        min_number g \<le> secret_number g \<and> secret_number g \<le> max_number g \<and>
        i < total_games s \<and>
        guess_count g = length (log_of s i) \<and> length (log_of s i) \<le> 1000 \<and>
        (entry_fee g = 0 \<longrightarrow> prize_pool g = 0 \<and> status g = ''active'' \<and> winner g = None) \<and>
        (status g \<noteq> ''active'' \<longrightarrow> prize_pool g = 0)) \<and>
     (\<forall>i. games s i = None \<longrightarrow> game_guesses s i = None) \<and>
     locked_in (games s) (total_games s) \<le> balances s Contract"

section \<open>Example chain states, balances and storage\<close>

text \<open>Block 1 on a chain whose block 0 has an all-zero header hash.\<close>

definition chain0 :: chain where
  "chain0 = \<lparr>block_height = 1,
             header_hash = (\<lambda>h. if h = 0 then Some (replicate 32 0) else None)\<rparr>"

definition funded :: "principal \<Rightarrow> nat" where
  "funded p = (case p of Contract \<Rightarrow> 0 | Account a \<Rightarrow> 1000)"

definition broke :: "principal \<Rightarrow> nat" where
  "broke p = 0"

definition busy_funds :: "principal \<Rightarrow> nat" where
  "busy_funds p = (case p of Contract \<Rightarrow> 0 | Account a \<Rightarrow> if a = 2 then 3000 else 4000)"

text \<open>
  States reached by running calls: a game over the single number 42 with fee 300
  (its record is \<open>single_game\<close>), the same game after account 1 has guessed 42, a game
  over 1..100 (its record is \<open>wide_game\<close>, with secret 2 on \<open>chain0\<close>), and the
  single-number game among accounts that hold nothing.
\<close>

definition single_game :: game where
  "single_game =
     \<lparr>creator = Account 0, secret_number = 42, min_number = 42, max_number = 42,
      entry_fee = 300, prize_pool = 0, guess_count = 0, winner = None,
      status = ''active'', created_at = 1\<rparr>"

definition wide_game :: game where
  "wide_game =
     \<lparr>creator = Account 0, secret_number = 2, min_number = 1, max_number = 100,
      entry_fee = 300, prize_pool = 0, guess_count = 0, winner = None,
      status = ''active'', created_at = 1\<rparr>"

definition open_state :: state where
  "open_state = run [CreateGame 0 chain0 42 42 300] (init_state funded)"

definition won_state :: state where
  "won_state = run [CreateGame 0 chain0 42 42 300, Guess 1 chain0 0 42] (init_state funded)"

definition wide_state :: state where
  "wide_state = run [CreateGame 0 chain0 1 100 300] (init_state funded)"

definition broke_state :: state where
  "broke_state = run [CreateGame 0 chain0 42 42 300] (init_state broke)"

text \<open>
  The game over 1..100 with fee 300 after accounts 3 and 2 have made ten wrong guesses
  each: its record is \<open>busy_game\<close>, and account 2, which started with 3000, has spent
  all it had.
\<close>

definition busy_game :: game where
  "busy_game =
     \<lparr>creator = Account 0, secret_number = 2, min_number = 1, max_number = 100,
      entry_fee = 300, prize_pool = 6000, guess_count = 20, winner = None,
      status = ''active'', created_at = 1\<rparr>"

definition busy_state :: state where
  "busy_state =
     run (CreateGame 0 chain0 1 100 300 #
          map (Guess 3 chain0 0) [50..<60] @ map (Guess 2 chain0 0) [60..<70])
       (init_state busy_funds)"

text \<open>
  A game over 1..100 without a fee (secret 2 again) after account 3 has made ten wrong
  guesses: its record is \<open>free_game\<close>.
\<close>

definition free_game :: game where
  "free_game =
     \<lparr>creator = Account 0, secret_number = 2, min_number = 1, max_number = 100,
      entry_fee = 0, prize_pool = 0, guess_count = 10, winner = None,
      status = ''active'', created_at = 1\<rparr>"

definition free_state :: state where
  "free_state =
     run (CreateGame 0 chain0 1 100 0 # map (Guess 3 chain0 0) [50..<60])
       (init_state funded)"

section \<open>The public wrapper and the stages of a guess\<close>

lemmas err_consts =
  ERR_GAME_NOT_FOUND_def ERR_GAME_ALREADY_WON_def ERR_INVALID_GUESS_def
  ERR_INVALID_PARAMS_def ERR_TOO_MANY_GUESSES_def

lemma define_public_Inl: "define_public body s = (Inl e, s') \<Longrightarrow> s' = s"
  by (auto simp: define_public_def split: prod.splits sum.splits)

lemma define_public_Inr: "define_public body s = (Inr v, s') \<Longrightarrow> body s = (Inr v, s')"
  by (auto simp: define_public_def split: prod.splits sum.splits)

lemma define_public_body_Inl: "body s = (Inl e, t) \<Longrightarrow> define_public body s = (Inl e, s)"
  by (simp add: define_public_def)

lemma define_public_body_Inr: "body s = (Inr v, t) \<Longrightarrow> define_public body s = (Inr v, t)"
  by (simp add: define_public_def)

lemma define_public_cases:
  obtains e where "define_public body s = (Inl e, s)"
  | v s' where "define_public body s = (Inr v, s')" "body s = (Inr v, s')"
  by (cases "body s"; cases "fst (body s)") (auto simp: define_public_def)

lemma pay_entry_fee_Inr:
  "pay_entry_fee (Account a) fee s = (Inr b, s1) \<Longrightarrow>
     b \<and> (fee = 0 \<or> fee \<le> balances s (Account a)) \<and>
     s1 = s\<lparr>balances := fee_paid (Account a) fee (balances s)\<rparr>"
  by (auto simp: pay_entry_fee_def stx_transfer_def fee_paid_def split: if_splits)

lemma pay_entry_fee_ok:
  "fee = 0 \<or> fee \<le> balances s (Account a) \<Longrightarrow>
     pay_entry_fee (Account a) fee s =
       (Inr True, s\<lparr>balances := fee_paid (Account a) fee (balances s)\<rparr>)"
  by (auto simp: pay_entry_fee_def stx_transfer_def fee_paid_def)

lemma pay_entry_fee_short:
  "0 < fee \<Longrightarrow> balances s (Account a) < fee \<Longrightarrow>
     pay_entry_fee (Account a) fee s = (Inl (Err 1), s)"
  by (auto simp: pay_entry_fee_def stx_transfer_def)

lemma record_guess_Inr:
  "record_guess c ch gid n pl gl s = (Inr b, s1) \<Longrightarrow>
     b \<and> length pl < 10 \<and> length gl < 1000 \<and>
     s1 = s\<lparr>player_guesses := (player_guesses s)((gid, c) \<mapsto> pl @ [n]),
            game_guesses := (game_guesses s)(gid \<mapsto>
              gl @ [\<lparr>player = c, guessed = n, timestamp = block_height ch\<rparr>])\<rparr>"
  by (auto simp: record_guess_def as_max_len_def Let_def split: if_splits)

lemma record_guess_ok:
  "length pl < 10 \<Longrightarrow> length gl < 1000 \<Longrightarrow>
   record_guess c ch gid n pl gl s = (Inr True,
     s\<lparr>player_guesses := (player_guesses s)((gid, c) \<mapsto> pl @ [n]),
            game_guesses := (game_guesses s)(gid \<mapsto>
              gl @ [\<lparr>player = c, guessed = n, timestamp = block_height ch\<rparr>])\<rparr>)"
  by (auto simp: record_guess_def as_max_len_def Let_def split: if_splits)

lemma record_guess_player_full:
  "10 \<le> length pl \<Longrightarrow> record_guess c ch gid n pl gl s = (Inl ERR_TOO_MANY_GUESSES, s)"
  by (auto simp: record_guess_def as_max_len_def Let_def split: if_splits)

lemma record_guess_Inl:
  "record_guess c ch gid n pl gl s = (Inl e, s1) \<Longrightarrow> e = ERR_TOO_MANY_GUESSES"
  by (auto simp: record_guess_def as_max_len_def Let_def split: if_splits)

lemma settle_win_Inr:
  "settle_win (Account a) gid g s = (Inr b, s1) \<Longrightarrow>
     b \<and> 0 < prize_pool g + entry_fee g \<and> prize_pool g + entry_fee g \<le> uint_max \<and>
     prize_pool g + entry_fee g \<le> balances s Contract \<and> guess_count g + 1 \<le> uint_max \<and>
     s1 = s\<lparr>balances := (balances s)
               (Contract := balances s Contract - (prize_pool g + entry_fee g),
                Account a := balances s (Account a) + (prize_pool g + entry_fee g)),
            games := (games s)(gid \<mapsto> g\<lparr>prize_pool := 0, guess_count := guess_count g + 1,
                       winner := Some (Account a), status := ''won''\<rparr>)\<rparr>"
  by (auto simp: settle_win_def uint_add_def stx_transfer_def Let_def split: if_splits)

lemma settle_win_ok:
  "0 < prize_pool g + entry_fee g \<Longrightarrow> prize_pool g + entry_fee g \<le> uint_max \<Longrightarrow>
     prize_pool g + entry_fee g \<le> balances s Contract \<Longrightarrow> guess_count g + 1 \<le> uint_max \<Longrightarrow>
   settle_win (Account a) gid g s = (Inr True, 
     s\<lparr>balances := (balances s)
               (Contract := balances s Contract - (prize_pool g + entry_fee g),
                Account a := balances s (Account a) + (prize_pool g + entry_fee g)),
            games := (games s)(gid \<mapsto> g\<lparr>prize_pool := 0, guess_count := guess_count g + 1,
                       winner := Some (Account a), status := ''won''\<rparr>)\<rparr>)"
  by (auto simp: settle_win_def uint_add_def stx_transfer_def Let_def split: if_splits)

lemma settle_win_nothing:
  "prize_pool g = 0 \<Longrightarrow> entry_fee g = 0 \<Longrightarrow> settle_win c gid g s = (Inl (Err 3), s)"
  by (simp add: settle_win_def uint_add_def stx_transfer_def)

lemma continue_game_Inr:
  "continue_game gid g s = (Inr b, s1) \<Longrightarrow>
     \<not> b \<and> prize_pool g + entry_fee g \<le> uint_max \<and> guess_count g + 1 \<le> uint_max \<and>
     s1 = s\<lparr>games := (games s)(gid \<mapsto> g\<lparr>prize_pool := prize_pool g + entry_fee g,
                       guess_count := guess_count g + 1\<rparr>)\<rparr>"
  by (auto simp: continue_game_def uint_add_def Let_def split: if_splits)

lemma continue_game_ok:
  "prize_pool g + entry_fee g \<le> uint_max \<Longrightarrow> guess_count g + 1 \<le> uint_max \<Longrightarrow>
   continue_game gid g s = (Inr False, 
     s\<lparr>games := (games s)(gid \<mapsto> g\<lparr>prize_pool := prize_pool g + entry_fee g,
                       guess_count := guess_count g + 1\<rparr>)\<rparr>)"
  by (auto simp: continue_game_def uint_add_def Let_def split: if_splits)

text \<open>The body of \<^verbatim>\<open>guess\<close> once the game is loaded and the two checks have passed.\<close>

lemma guess_body_checked:
  assumes "games s gid = Some g" "status g = ''active''" "min_number g \<le> n" "n \<le> max_number g"
  shows "guess_body c ch gid n s =
     (case pay_entry_fee c (entry_fee g) s of
        (Inl e, s1) \<Rightarrow> (Inl e, s1)
      | (Inr _, s1) \<Rightarrow>
          (case record_guess c ch gid n (get_player_guesses gid c s) (log_of s gid) s1 of
             (Inl e, s2) \<Rightarrow> (Inl e, s2)
           | (Inr _, s2) \<Rightarrow>
               (if n = secret_number g then settle_win c gid g s2 else continue_game gid g s2)))"
  using assms unfolding get_player_guesses_def log_of_def by (simp add: guess_body_def Let_def)

lemma guess_body_Inr:
  assumes "guess_body (Account a) ch gid n s = (Inr b, s')"
  shows "\<exists>g s1 s2. games s gid = Some g \<and> status g = ''active'' \<and>
           min_number g \<le> n \<and> n \<le> max_number g \<and>
           pay_entry_fee (Account a) (entry_fee g) s = (Inr True, s1) \<and>
           record_guess (Account a) ch gid n (get_player_guesses gid (Account a) s) (log_of s gid) s1 = (Inr True, s2) \<and>
           (if n = secret_number g then settle_win (Account a) gid g s2 = (Inr b, s')
            else continue_game gid g s2 = (Inr b, s'))"
  using assms
  apply (simp add: guess_body_def Let_def get_player_guesses_def log_of_def split: option.splits if_splits prod.splits sum.splits)
  apply (auto dest: pay_entry_fee_Inr record_guess_Inr)
  done

text \<open>What a successful guess did, field by field.\<close>

lemma guess_Inr:
  assumes "guess (Account a) ch gid n s = (Inr b, s')"
  obtains g where "games s gid = Some g" "status g = ''active''"
    "min_number g \<le> n" "n \<le> max_number g"
    "entry_fee g = 0 \<or> entry_fee g \<le> balances s (Account a)"
    "length (get_player_guesses gid (Account a) s) < 10" "length (log_of s gid) < 1000"
    "prize_pool g + entry_fee g \<le> uint_max" "guess_count g + 1 \<le> uint_max"
    "b \<longleftrightarrow> n = secret_number g"
    "total_games s' = total_games s"
    "player_guesses s' = (player_guesses s)((gid, Account a) \<mapsto> get_player_guesses gid (Account a) s @ [n])"
    "game_guesses s' = (game_guesses s)(gid \<mapsto> log_of s gid @ [\<lparr>player = Account a, guessed = n, timestamp = block_height ch\<rparr>])"
    "n \<noteq> secret_number g \<longrightarrow>
       games s' = (games s)(gid \<mapsto> g\<lparr>prize_pool := prize_pool g + entry_fee g, guess_count := guess_count g + 1\<rparr>) \<and>
       balances s' = fee_paid (Account a) (entry_fee g) (balances s)"
    "n = secret_number g \<longrightarrow>
       0 < prize_pool g + entry_fee g \<and>
       prize_pool g + entry_fee g \<le> fee_paid (Account a) (entry_fee g) (balances s) Contract \<and>
       games s' = (games s)(gid \<mapsto> g\<lparr>prize_pool := 0, guess_count := guess_count g + 1,
                       winner := Some (Account a), status := ''won''\<rparr>) \<and>
       balances s' = (fee_paid (Account a) (entry_fee g) (balances s))
               (Contract := fee_paid (Account a) (entry_fee g) (balances s) Contract - (prize_pool g + entry_fee g),
                Account a := fee_paid (Account a) (entry_fee g) (balances s) (Account a) + (prize_pool g + entry_fee g))"
proof -
  from assms have "guess_body (Account a) ch gid n s = (Inr b, s')"
    unfolding guess_def by (rule define_public_Inr)
  from guess_body_Inr[OF this] obtain g s1 s2 where
    g: "games s gid = Some g" "status g = ''active''" "min_number g \<le> n" "n \<le> max_number g"
    and p: "pay_entry_fee (Account a) (entry_fee g) s = (Inr True, s1)"
    and r: "record_guess (Account a) ch gid n (get_player_guesses gid (Account a) s) (log_of s gid) s1 = (Inr True, s2)"
    and f: "if n = secret_number g then settle_win (Account a) gid g s2 = (Inr b, s')
            else continue_game gid g s2 = (Inr b, s')"
    by blast
  note P = pay_entry_fee_Inr[OF p] and R = record_guess_Inr[OF r]
  show thesis
  proof (cases "n = secret_number g")
    case True
    with f have "settle_win (Account a) gid g s2 = (Inr b, s')" by simp
    note W = settle_win_Inr[OF this]
    show thesis
      apply (rule that[OF g])
      using P R W True by (simp_all)
  next
    case False
    with f have "continue_game gid g s2 = (Inr b, s')" by simp
    note C = continue_game_Inr[OF this]
    show thesis
      apply (rule that[OF g])
      using P R C False by (simp_all)
  qed
qed


lemma guess_Inl: "guess c ch gid n s = (Inl e, s') \<Longrightarrow> s' = s"
  unfolding guess_def by (rule define_public_Inl)

lemma create_game_Inl: "create_game c ch mn mx fee s = (Inl e, s') \<Longrightarrow> s' = s"
  unfolding create_game_def by (rule define_public_Inl)

lemma create_game_body_Inr:
  assumes "create_game_body c ch mn mx fee s = (Inr i, s')"
  shows "i = total_games s \<and> mn \<le> mx \<and> 0 < block_height ch \<and>
         (\<exists>h. header_hash ch (block_height ch - 1) = Some h \<and> 16 \<le> length h \<and>
              s' = s\<lparr>games := (games s)(total_games s \<mapsto>
                        \<lparr>creator = c,
                         secret_number = spec_secret (buff_to_uint_le (take 16 h)) (block_height ch) mn mx,
                         min_number = mn, max_number = mx, entry_fee = fee, prize_pool = 0,
                         guess_count = 0, winner = None, status = ''active'',
                         created_at = block_height ch\<rparr>),
                     total_games := total_games s + 1\<rparr>)"
  using assms
  by (auto simp: create_game_body_def Let_def uint_sub_def uint_add_def uint_mod_def slice_def
      as_max_len_def spec_secret_def add.commute split: sum.splits option.splits if_splits)

lemma create_game_Inr:
  assumes "create_game c ch mn mx fee s = (Inr i, s')"
  obtains h where "i = total_games s" "mn \<le> mx" "0 < block_height ch"
    "header_hash ch (block_height ch - 1) = Some h" "16 \<le> length h"
    "total_games s' = total_games s + 1"
    "games s' = (games s)(total_games s \<mapsto>
                        \<lparr>creator = c,
                         secret_number = spec_secret (buff_to_uint_le (take 16 h)) (block_height ch) mn mx,
                         min_number = mn, max_number = mx, entry_fee = fee, prize_pool = 0,
                         guess_count = 0, winner = None, status = ''active'',
                         created_at = block_height ch\<rparr>)"
    "player_guesses s' = player_guesses s" "game_guesses s' = game_guesses s"
    "balances s' = balances s"
proof -
  from assms have "create_game_body c ch mn mx fee s = (Inr i, s')"
    unfolding create_game_def by (rule define_public_Inr)
  from create_game_body_Inr[OF this] show thesis
    by (auto intro: that)
qed

lemma spec_secret_bounds:
  "mn \<le> mx \<Longrightarrow> mn \<le> spec_secret v k mn mx \<and> spec_secret v k mn mx \<le> mx"
proof -
  assume "mn \<le> mx"
  have "(v XOR k) mod (mx - mn + 1) < mx - mn + 1" by simp
  with \<open>mn \<le> mx\<close> show ?thesis unfolding spec_secret_def by linarith
qed

lemma locked_in_update:
  assumes "i < n"
  shows "locked_in (gm(i \<mapsto> g')) n + (case gm i of None \<Rightarrow> 0 | Some g \<Rightarrow> prize_pool g)
           = locked_in gm n + prize_pool g'"
proof -
  let ?f = "\<lambda>m j. case m j of None \<Rightarrow> 0 | Some g \<Rightarrow> prize_pool g"
  have fin: "finite {..<n}" and mem: "i \<in> {..<n}" using assms by simp_all
  have rest: "sum (?f (gm(i \<mapsto> g'))) ({..<n} - {i}) = sum (?f gm) ({..<n} - {i})"
    by (rule sum.cong) auto
  have "locked_in (gm(i \<mapsto> g')) n = prize_pool g' + sum (?f (gm(i \<mapsto> g'))) ({..<n} - {i})"
    unfolding locked_in_def using sum.remove[OF fin mem, of "?f (gm(i \<mapsto> g'))"] by simp
  moreover have "locked_in gm n = ?f gm i + sum (?f gm) ({..<n} - {i})"
    unfolding locked_in_def using sum.remove[OF fin mem, of "?f gm"] by simp
  ultimately show ?thesis using rest by simp
qed

lemma locked_in_fresh:
  "locked_in (gm(n \<mapsto> g')) (n + 1) = locked_in gm n + prize_pool g'"
proof -
  have "sum (\<lambda>j. case (gm(n \<mapsto> g')) j of None \<Rightarrow> 0 | Some g \<Rightarrow> prize_pool g) {..<n}
        = sum (\<lambda>j. case gm j of None \<Rightarrow> 0 | Some g \<Rightarrow> prize_pool g) {..<n}"
    by (rule sum.cong) auto
  then show ?thesis unfolding locked_in_def by simp
qed

lemma locked_in_member:
  "i < n \<Longrightarrow> gm i = Some g \<Longrightarrow> prize_pool g \<le> locked_in gm n"
proof -
  assume a: "i < n" "gm i = Some g"
  have "(case gm i of None \<Rightarrow> 0 | Some g \<Rightarrow> prize_pool g)
          \<le> sum (\<lambda>j. case gm j of None \<Rightarrow> 0 | Some g \<Rightarrow> prize_pool g) {..<n}"
    by (rule member_le_sum) (use a in auto)
  with a show ?thesis unfolding locked_in_def by simp
qed

section \<open>Successful calls, and the example states evaluated\<close>

lemma buff_to_uint_le_zeros: "buff_to_uint_le (replicate n 0) = 0"
  by (induction n) simp_all

lemma create_game_ok:
  assumes "0 < block_height ch" "header_hash ch (block_height ch - 1) = Some h"
    "16 \<le> length h" "mn \<le> mx" "mx \<le> uint_max" "mx - mn < uint_max"
    "total_games s < uint_max"
  shows "create_game c ch mn mx fee s =
     (Inr (total_games s),
      s\<lparr>games := (games s)(total_games s \<mapsto>
            \<lparr>creator = c,
             secret_number = spec_secret (buff_to_uint_le (take 16 h)) (block_height ch) mn mx,
             min_number = mn, max_number = mx, entry_fee = fee, prize_pool = 0,
             guess_count = 0, winner = None, status = ''active'',
             created_at = block_height ch\<rparr>),
         total_games := total_games s + 1\<rparr>)"
proof -
  have "(buff_to_uint_le (take 16 h) XOR block_height ch) mod (mx - mn + 1) < mx - mn + 1"
    by simp
  with assms have "(buff_to_uint_le (take 16 h) XOR block_height ch) mod (mx - mn + 1) + mn \<le> uint_max"
    by linarith
  moreover from assms(3) have "h \<noteq> []" by auto
  ultimately show ?thesis
    using assms
    by (simp add: create_game_def define_public_def create_game_body_def Let_def uint_sub_def
        uint_add_def uint_mod_def slice_def as_max_len_def spec_secret_def add.commute not_less)
qed

lemma chain0_simps:
  "block_height chain0 = 1" "header_hash chain0 0 = Some (replicate 32 0)"
  by (simp_all add: chain0_def)

lemma small_uint:
  "n \<le> 1000000 \<Longrightarrow> n \<le> uint_max" "n \<le> 1000000 \<Longrightarrow> n < uint_max"
  by (simp_all add: uint_max_def)

lemma guess_win_ok:
  assumes "games s gid = Some g" "status g = ''active''"
    "min_number g \<le> secret_number g" "secret_number g \<le> max_number g"
    "entry_fee g = 0 \<or> entry_fee g \<le> balances s (Account a)"
    "length (get_player_guesses gid (Account a) s) < 10" "length (log_of s gid) < 1000"
    "0 < prize_pool g + entry_fee g" "prize_pool g + entry_fee g \<le> uint_max"
    "prize_pool g \<le> balances s Contract" "guess_count g < uint_max"
  shows "guess (Account a) ch gid (secret_number g) s =
     (Inr True,
      s\<lparr>balances := (fee_paid (Account a) (entry_fee g) (balances s))
           (Contract := fee_paid (Account a) (entry_fee g) (balances s) Contract
                          - (prize_pool g + entry_fee g),
            Account a := fee_paid (Account a) (entry_fee g) (balances s) (Account a)
                          + (prize_pool g + entry_fee g)),
        player_guesses := (player_guesses s)((gid, Account a) \<mapsto>
           get_player_guesses gid (Account a) s @ [secret_number g]),
        game_guesses := (game_guesses s)(gid \<mapsto> log_of s gid @
           [\<lparr>player = Account a, guessed = secret_number g, timestamp = block_height ch\<rparr>]),
        games := (games s)(gid \<mapsto> g\<lparr>prize_pool := 0, guess_count := guess_count g + 1,
           winner := Some (Account a), status := ''won''\<rparr>)\<rparr>)"
proof -
  have held: "prize_pool g + entry_fee g \<le> fee_paid (Account a) (entry_fee g) (balances s) Contract"
    using assms(10) by (simp add: fee_paid_def)
  have "guess_body (Account a) ch gid (secret_number g) s = (Inr True,
      s\<lparr>balances := (fee_paid (Account a) (entry_fee g) (balances s))
           (Contract := fee_paid (Account a) (entry_fee g) (balances s) Contract
                          - (prize_pool g + entry_fee g),
            Account a := fee_paid (Account a) (entry_fee g) (balances s) (Account a)
                          + (prize_pool g + entry_fee g)),
        player_guesses := (player_guesses s)((gid, Account a) \<mapsto>
           get_player_guesses gid (Account a) s @ [secret_number g]),
        game_guesses := (game_guesses s)(gid \<mapsto> log_of s gid @
           [\<lparr>player = Account a, guessed = secret_number g, timestamp = block_height ch\<rparr>]),
        games := (games s)(gid \<mapsto> g\<lparr>prize_pool := 0, guess_count := guess_count g + 1,
           winner := Some (Account a), status := ''won''\<rparr>)\<rparr>)"
    using assms held
    by (simp add: guess_body_checked pay_entry_fee_ok record_guess_ok settle_win_ok)
  then show ?thesis
    unfolding guess_def by (rule define_public_body_Inr)
qed

lemma guess_continue_ok:
  assumes "games s gid = Some g" "status g = ''active''"
    "min_number g \<le> n" "n \<le> max_number g" "n \<noteq> secret_number g"
    "entry_fee g = 0 \<or> entry_fee g \<le> balances s (Account a)"
    "length (get_player_guesses gid (Account a) s) < 10" "length (log_of s gid) < 1000"
    "prize_pool g + entry_fee g \<le> uint_max" "guess_count g < uint_max"
  shows "guess (Account a) ch gid n s =
     (Inr False,
      s\<lparr>balances := fee_paid (Account a) (entry_fee g) (balances s),
        player_guesses := (player_guesses s)((gid, Account a) \<mapsto>
           get_player_guesses gid (Account a) s @ [n]),
        game_guesses := (game_guesses s)(gid \<mapsto> log_of s gid @
           [\<lparr>player = Account a, guessed = n, timestamp = block_height ch\<rparr>]),
        games := (games s)(gid \<mapsto> g\<lparr>prize_pool := prize_pool g + entry_fee g,
           guess_count := guess_count g + 1\<rparr>)\<rparr>)"
proof -
  have "guess_body (Account a) ch gid n s = (Inr False,
      s\<lparr>balances := fee_paid (Account a) (entry_fee g) (balances s),
        player_guesses := (player_guesses s)((gid, Account a) \<mapsto>
           get_player_guesses gid (Account a) s @ [n]),
        game_guesses := (game_guesses s)(gid \<mapsto> log_of s gid @
           [\<lparr>player = Account a, guessed = n, timestamp = block_height ch\<rparr>]),
        games := (games s)(gid \<mapsto> g\<lparr>prize_pool := prize_pool g + entry_fee g,
           guess_count := guess_count g + 1\<rparr>)\<rparr>)"
    using assms
    by (simp add: guess_body_checked pay_entry_fee_ok record_guess_ok continue_game_ok)
  then show ?thesis
    unfolding guess_def by (rule define_public_body_Inr)
qed

lemma create_on_chain0:
  assumes "mn \<le> mx" "mx \<le> uint_max" "mx - mn < uint_max" "total_games s < uint_max"
  shows "create_game c chain0 mn mx fee s =
     (Inr (total_games s),
      s\<lparr>games := (games s)(total_games s \<mapsto>
            \<lparr>creator = c, secret_number = mn + 1 mod (mx - mn + 1),
             min_number = mn, max_number = mx, entry_fee = fee, prize_pool = 0,
             guess_count = 0, winner = None, status = ''active'', created_at = 1\<rparr>),
         total_games := total_games s + 1\<rparr>)"
  using create_game_ok[of chain0 "replicate 32 0" mn mx s c fee] assms
  by (simp add: chain0_simps spec_secret_def buff_to_uint_le_zeros)

lemma open_state_eval:
  "open_state =
     \<lparr>total_games = 1,
      games = [0 \<mapsto> \<lparr>creator = Account 0, secret_number = 42, min_number = 42,
                      max_number = 42, entry_fee = 300, prize_pool = 0, guess_count = 0,
                      winner = None, status = ''active'', created_at = 1\<rparr>],
      player_guesses = Map.empty, game_guesses = Map.empty, balances = funded\<rparr>"
  by (simp add: open_state_def run_def create_on_chain0 init_state_def small_uint)

lemma wide_state_eval:
  "wide_state =
     \<lparr>total_games = 1,
      games = [0 \<mapsto> \<lparr>creator = Account 0, secret_number = Suc (Suc 0), min_number = 1,
                      max_number = 100, entry_fee = 300, prize_pool = 0, guess_count = 0,
                      winner = None, status = ''active'', created_at = 1\<rparr>],
      player_guesses = Map.empty, game_guesses = Map.empty, balances = funded\<rparr>"
  by (simp add: wide_state_def run_def create_on_chain0 init_state_def small_uint)

lemma broke_state_eval:
  "broke_state =
     \<lparr>total_games = 1,
      games = [0 \<mapsto> \<lparr>creator = Account 0, secret_number = 42, min_number = 42,
                      max_number = 42, entry_fee = 300, prize_pool = 0, guess_count = 0,
                      winner = None, status = ''active'', created_at = 1\<rparr>],
      player_guesses = Map.empty, game_guesses = Map.empty, balances = broke\<rparr>"
  by (simp add: broke_state_def run_def create_on_chain0 init_state_def small_uint)

lemma won_state_step: "won_state = snd (guess (Account 1) chain0 0 42 open_state)"
  by (simp add: won_state_def open_state_def run_def)

lemma won_state_games:
  "games won_state 0 =
     Some \<lparr>creator = Account 0, secret_number = 42, min_number = 42,
                      max_number = 42, entry_fee = 300, prize_pool = 0, guess_count = 1,
                      winner = Some (Account 1), status = ''won'', created_at = 1\<rparr>"
  using guess_win_ok[of open_state 0 "\<lparr>creator = Account 0, secret_number = 42, min_number = 42,
                      max_number = 42, entry_fee = 300, prize_pool = 0, guess_count = 0,
                      winner = None, status = ''active'', created_at = 1\<rparr>" 1 chain0]
  by (simp add: won_state_step open_state_eval get_player_guesses_def log_of_def funded_def
      small_uint)

lemma won_state_unknown: "games won_state 7 = None"
  using guess_win_ok[of open_state 0 "\<lparr>creator = Account 0, secret_number = 42, min_number = 42,
                      max_number = 42, entry_fee = 300, prize_pool = 0, guess_count = 0,
                      winner = None, status = ''active'', created_at = 1\<rparr>" 1 chain0]
  by (simp add: won_state_step open_state_eval get_player_guesses_def log_of_def funded_def
      small_uint)

section \<open>The invariant holds in every reachable state\<close>

text \<open>
  The empty storage satisfies \<open>wf_state\<close> whatever the balances are, and each call
  keeps it: \<^verbatim>\<open>create-game\<close> adds a fresh id with an empty pool, a guess moves into
  the contract exactly what it adds to the pool and pays out exactly the pool it
  empties, and a transfer between accounts never lowers the contract's balance.
\<close>

lemma wf_state_init: "wf_state (init_state bal)"
  by (simp add: wf_state_def init_state_def locked_in_def)

lemma wf_state_game:
  assumes "wf_state s" "games s i = Some g"
  shows "min_number g \<le> secret_number g" "secret_number g \<le> max_number g"
    "i < total_games s" "guess_count g = length (log_of s i)" "length (log_of s i) \<le> 1000"
    "entry_fee g = 0 \<Longrightarrow> prize_pool g = 0 \<and> status g = ''active'' \<and> winner g = None"
    "status g \<noteq> ''active'' \<Longrightarrow> prize_pool g = 0"
  using assms unfolding wf_state_def by blast+

lemma wf_state_no_game:
  "wf_state s \<Longrightarrow> games s i = None \<Longrightarrow> game_guesses s i = None"
  unfolding wf_state_def by blast

lemma wf_state_solvent:
  "wf_state s \<Longrightarrow> locked_in (games s) (total_games s) \<le> balances s Contract"
  unfolding wf_state_def by blast

lemma wf_stateI:
  assumes "\<And>i g. games s i = Some g \<Longrightarrow>
        min_number g \<le> secret_number g \<and> secret_number g \<le> max_number g \<and>
        i < total_games s \<and>
        guess_count g = length (log_of s i) \<and> length (log_of s i) \<le> 1000 \<and>
        (entry_fee g = 0 \<longrightarrow> prize_pool g = 0 \<and> status g = ''active'' \<and> winner g = None) \<and>
        (status g \<noteq> ''active'' \<longrightarrow> prize_pool g = 0)"
    and "\<And>i. games s i = None \<Longrightarrow> game_guesses s i = None"
    and "locked_in (games s) (total_games s) \<le> balances s Contract"
  shows "wf_state s"
  using assms unfolding wf_state_def by blast

lemma wf_state_create_game:
  assumes wf: "wf_state s"
  shows "wf_state (snd (create_game c ch mn mx fee s))"
proof (cases "create_game c ch mn mx fee s")
  case (Pair r s')
  show ?thesis
  proof (cases r)
    case (Inl e)
    with Pair have "s' = s" by (auto dest: create_game_Inl)
    with wf Pair show ?thesis by simp
  next
    case (Inr i)
    with Pair have ok: "create_game c ch mn mx fee s = (Inr i, s')" by simp
    from ok obtain h where c0:
      "i = total_games s" "mn \<le> mx" "0 < block_height ch"
      "header_hash ch (block_height ch - 1) = Some h" "16 \<le> length h"
      "total_games s' = total_games s + 1"
      "games s' = (games s)(total_games s \<mapsto>
                        \<lparr>creator = c,
                         secret_number = spec_secret (buff_to_uint_le (take 16 h)) (block_height ch) mn mx,
                         min_number = mn, max_number = mx, entry_fee = fee, prize_pool = 0,
                         guess_count = 0, winner = None, status = ''active'',
                         created_at = block_height ch\<rparr>)"
      "player_guesses s' = player_guesses s" "game_guesses s' = game_guesses s"
      "balances s' = balances s"
      by (rule create_game_Inr)
    note c = c0(2) c0(6) c0(7) c0(9) c0(10)
    have fresh: "games s (total_games s) = None"
    proof (cases "games s (total_games s)")
      case (Some g)
      from wf_state_game(3)[OF wf Some] show ?thesis by simp
    qed simp
    have nolog: "log_of s (total_games s) = []"
      using wf_state_no_game[OF wf fresh] by (simp add: log_of_def)
    have logs: "log_of s' = log_of s"
      using c(4) by (simp add: log_of_def fun_eq_iff)
    have sum: "locked_in (games s') (total_games s') = locked_in (games s) (total_games s)"
      using c(2,3) locked_in_fresh[of "games s" "total_games s"] by simp
    have "wf_state s'"
    proof (rule wf_stateI)
      fix i g assume g: "games s' i = Some g"
      show "min_number g \<le> secret_number g \<and> secret_number g \<le> max_number g \<and>
        i < total_games s' \<and>
        guess_count g = length (log_of s' i) \<and> length (log_of s' i) \<le> 1000 \<and>
        (entry_fee g = 0 \<longrightarrow> prize_pool g = 0 \<and> status g = ''active'' \<and> winner g = None) \<and>
        (status g \<noteq> ''active'' \<longrightarrow> prize_pool g = 0)"
      proof (cases "i = total_games s")
        case True
        with g c(3) have "g = \<lparr>creator = c,
                         secret_number = spec_secret (buff_to_uint_le (take 16 h)) (block_height ch) mn mx,
                         min_number = mn, max_number = mx, entry_fee = fee, prize_pool = 0,
                         guess_count = 0, winner = None, status = ''active'',
                         created_at = block_height ch\<rparr>" by simp
        then show ?thesis
          using True c(2) logs nolog spec_secret_bounds[OF c(1)] by simp
      next
        case False
        with g c(3) have old: "games s i = Some g" by simp
        show ?thesis
          using wf_state_game[OF wf old] c(2) logs by simp
      qed
    next
      fix i assume "games s' i = None"
      then have "games s i = None" using c(3) by (simp split: if_splits)
      then show "game_guesses s' i = None"
        using wf_state_no_game[OF wf] c(4) by simp
    next
      show "locked_in (games s') (total_games s') \<le> balances s' Contract"
        using sum c(5) wf_state_solvent[OF wf] by simp
    qed
    with Pair show ?thesis by simp
  qed
qed

lemma wf_state_guess:
  assumes wf: "wf_state s"
  shows "wf_state (snd (guess (Account a) ch gid n s))"
proof (cases "guess (Account a) ch gid n s")
  case (Pair r s')
  show ?thesis
  proof (cases r)
    case (Inl e)
    with Pair have "s' = s" by (auto dest: guess_Inl)
    with wf Pair show ?thesis by simp
  next
    case (Inr b)
    with Pair have ok: "guess (Account a) ch gid n s = (Inr b, s')" by simp
    from ok obtain g where G0:
      "games s gid = Some g" "status g = ''active''"
      "min_number g \<le> n" "n \<le> max_number g"
      "entry_fee g = 0 \<or> entry_fee g \<le> balances s (Account a)"
      "length (get_player_guesses gid (Account a) s) < 10" "length (log_of s gid) < 1000"
      "prize_pool g + entry_fee g \<le> uint_max" "guess_count g + 1 \<le> uint_max"
      "b \<longleftrightarrow> n = secret_number g"
      "total_games s' = total_games s"
      "player_guesses s' = (player_guesses s)((gid, Account a) \<mapsto> get_player_guesses gid (Account a) s @ [n])"
      "game_guesses s' = (game_guesses s)(gid \<mapsto> log_of s gid @ [\<lparr>player = Account a, guessed = n, timestamp = block_height ch\<rparr>])"
      "n \<noteq> secret_number g \<longrightarrow>
       games s' = (games s)(gid \<mapsto> g\<lparr>prize_pool := prize_pool g + entry_fee g, guess_count := guess_count g + 1\<rparr>) \<and>
       balances s' = fee_paid (Account a) (entry_fee g) (balances s)"
      "n = secret_number g \<longrightarrow>
       0 < prize_pool g + entry_fee g \<and>
       prize_pool g + entry_fee g \<le> fee_paid (Account a) (entry_fee g) (balances s) Contract \<and>
       games s' = (games s)(gid \<mapsto> g\<lparr>prize_pool := 0, guess_count := guess_count g + 1,
                       winner := Some (Account a), status := ''won''\<rparr>) \<and>
       balances s' = (fee_paid (Account a) (entry_fee g) (balances s))
               (Contract := fee_paid (Account a) (entry_fee g) (balances s) Contract - (prize_pool g + entry_fee g),
                Account a := fee_paid (Account a) (entry_fee g) (balances s) (Account a) + (prize_pool g + entry_fee g))"
      by (rule guess_Inr)
    note G = G0(1) G0(2) G0(7) G0(11) G0(13) G0(14) G0(15)
    note old = wf_state_game[OF wf G(1)]
    have paid: "fee_paid (Account a) (entry_fee g) (balances s) Contract
                  = balances s Contract + entry_fee g"
      by (simp add: fee_paid_def)
    obtain g' where upd: "games s' = (games s)(gid \<mapsto> g')"
      and kind: "(g' = g\<lparr>prize_pool := prize_pool g + entry_fee g,
                       guess_count := guess_count g + 1\<rparr> \<and>
                  balances s' Contract = balances s Contract + entry_fee g) \<or>
                 (g' = g\<lparr>prize_pool := 0, guess_count := guess_count g + 1,
                        winner := Some (Account a), status := ''won''\<rparr> \<and>
                  0 < entry_fee g \<and>
                  balances s' Contract
                    = balances s Contract + entry_fee g - (prize_pool g + entry_fee g))"
    proof (cases "n = secret_number g")
      case True
      with G(7) have w: "0 < prize_pool g + entry_fee g"
        "games s' = (games s)(gid \<mapsto> g\<lparr>prize_pool := 0, guess_count := guess_count g + 1,
                       winner := Some (Account a), status := ''won''\<rparr>)"
        "balances s' Contract
           = fee_paid (Account a) (entry_fee g) (balances s) Contract
               - (prize_pool g + entry_fee g)"
        by simp_all
      from w(1) old(6) have "0 < entry_fee g" by (cases "entry_fee g = 0") simp_all
      with w(2,3) paid show thesis by (intro that[of "g\<lparr>prize_pool := 0, guess_count := guess_count g + 1,
                       winner := Some (Account a), status := ''won''\<rparr>"] disjI2 conjI) simp_all
    next
      case False
      with G(6) have "games s' = (games s)(gid \<mapsto> g\<lparr>prize_pool := prize_pool g + entry_fee g,
                       guess_count := guess_count g + 1\<rparr>)"
        "balances s' Contract = fee_paid (Account a) (entry_fee g) (balances s) Contract"
        by simp_all
      with paid show thesis by (intro that[of "g\<lparr>prize_pool := prize_pool g + entry_fee g,
                       guess_count := guess_count g + 1\<rparr>"] disjI1 conjI) simp_all
    qed
    have log': "log_of s' gid = log_of s gid @ [\<lparr>player = Account a, guessed = n, timestamp = block_height ch\<rparr>]"
      and log_other: "\<And>i. i \<noteq> gid \<Longrightarrow> log_of s' i = log_of s i"
      using G(5) by (simp_all add: log_of_def)
    have bal: "locked_in (games s') (total_games s') \<le> balances s' Contract"
    proof -
      have eq: "locked_in (games s') (total_games s') + prize_pool g
              = locked_in (games s) (total_games s) + prize_pool g'"
        using locked_in_update[OF old(3), of "games s" g'] G(1,4) upd by simp
      have solvent: "locked_in (games s) (total_games s) \<le> balances s Contract"
        by (rule wf_state_solvent[OF wf])
      from kind show ?thesis
      proof
        assume k: "g' = g\<lparr>prize_pool := prize_pool g + entry_fee g,
                       guess_count := guess_count g + 1\<rparr> \<and>
                  balances s' Contract = balances s Contract + entry_fee g"
        then have "prize_pool g' = prize_pool g + entry_fee g" by simp
        with k eq solvent show ?thesis by linarith
      next
        assume k: "g' = g\<lparr>prize_pool := 0, guess_count := guess_count g + 1,
                        winner := Some (Account a), status := ''won''\<rparr> \<and>
                  0 < entry_fee g \<and>
                  balances s' Contract
                    = balances s Contract + entry_fee g - (prize_pool g + entry_fee g)"
        then have "prize_pool g' = 0" by simp
        with k eq solvent show ?thesis by linarith
      qed
    qed
    have "wf_state s'"
    proof (rule wf_stateI)
      fix i h assume h: "games s' i = Some h"
      show "min_number h \<le> secret_number h \<and> secret_number h \<le> max_number h \<and>
        i < total_games s' \<and>
        guess_count h = length (log_of s' i) \<and> length (log_of s' i) \<le> 1000 \<and>
        (entry_fee h = 0 \<longrightarrow> prize_pool h = 0 \<and> status h = ''active'' \<and> winner h = None) \<and>
        (status h \<noteq> ''active'' \<longrightarrow> prize_pool h = 0)"
      proof (cases "i = gid")
        case True
        with h upd have "h = g'" by simp
        with kind show ?thesis
          using old G(2,3,4) log' True by auto
      next
        case False
        with h upd have o: "games s i = Some h" by simp
        show ?thesis
          using wf_state_game[OF wf o] G(4) log_other[OF False] by simp
      qed
    next
      fix i assume "games s' i = None"
      then have "games s i = None" "i \<noteq> gid" using upd by (simp_all split: if_splits)
      then show "game_guesses s' i = None"
        using wf_state_no_game[OF wf] G(5) by simp
    next
      show "locked_in (games s') (total_games s') \<le> balances s' Contract" by (rule bal)
    qed
    with Pair show ?thesis by simp
  qed
qed

lemma wf_state_stx_transfer:
  assumes wf: "wf_state s"
  shows "wf_state (step (StxTransfer a recipient amount) s)"
proof -
  let ?s' = "step (StxTransfer a recipient amount) s"
  have same: "games ?s' = games s" "total_games ?s' = total_games s"
    "game_guesses ?s' = game_guesses s"
    and more: "balances s Contract \<le> balances ?s' Contract"
    by (auto simp: stx_transfer_def split: if_splits)
  have logs: "log_of ?s' = log_of s"
    using same(3) by (simp add: log_of_def fun_eq_iff)
  show ?thesis
  proof (rule wf_stateI)
    fix i g assume "games ?s' i = Some g"
    then have o: "games s i = Some g" using same(1) by simp
    show "min_number g \<le> secret_number g \<and> secret_number g \<le> max_number g \<and>
        i < total_games ?s' \<and>
        guess_count g = length (log_of ?s' i) \<and> length (log_of ?s' i) \<le> 1000 \<and>
        (entry_fee g = 0 \<longrightarrow> prize_pool g = 0 \<and> status g = ''active'' \<and> winner g = None) \<and>
        (status g \<noteq> ''active'' \<longrightarrow> prize_pool g = 0)"
      using wf_state_game[OF wf o] same(2) logs by simp
  next
    fix i assume "games ?s' i = None"
    then show "game_guesses ?s' i = None"
      using wf_state_no_game[OF wf] same(1,3) by simp
  next
    show "locked_in (games ?s') (total_games ?s') \<le> balances ?s' Contract"
      using wf_state_solvent[OF wf] more same(1,2) by simp
  qed
qed

lemma wf_state_step:
  assumes "wf_state s"
  shows "wf_state (step c s)"
proof (cases c)
  case (CreateGame a ch mn mx fee)
  show ?thesis
    unfolding CreateGame step.simps using assms by (rule wf_state_create_game)
next
  case (Guess a ch gid n)
  show ?thesis
    unfolding Guess step.simps using assms by (rule wf_state_guess)
next
  case (StxTransfer a recipient amount)
  show ?thesis
    unfolding StxTransfer using assms by (rule wf_state_stx_transfer)
qed

lemma wf_state_run: "wf_state s \<Longrightarrow> wf_state (run cs s)"
  unfolding run_def by (induction cs arbitrary: s) (simp_all add: wf_state_step)

lemma wf_state_reachable: "wf_state (run cs (init_state bal))"
  by (rule wf_state_run[OF wf_state_init])

section \<open>Guessing on a game that is over\<close>

text \<open>
  Claim C5. On a game whose status is not \<open>active\<close>, every guess, by any caller and with
  any number, fails with \<^verbatim>\<open>ERR_GAME_ALREADY_WON\<close> (102), and the state after the call
  is the state before it: the game record, the player's history, the game's list and
  all balances.
\<close>

theorem guess_on_finished_game_rejected:
  assumes "games s game_id = Some g" and "status g \<noteq> ''active''"
  shows "guess c ch game_id n s = (Inl (Err 102), s)"
proof -
  from assms have "guess_body c ch game_id n s = (Inl (Err 102), s)"
    by (simp add: guess_body_def Let_def ERR_GAME_ALREADY_WON_def)
  then show ?thesis
    unfolding guess_def by (rule define_public_body_Inl)
qed

theorem guess_on_finished_game_rejected_witness:
  "games won_state 0 \<noteq> None \<and> status (the (games won_state 0)) = ''won'' \<and>
   guess (Account 2) chain0 0 42 won_state = (Inl (Err 102), won_state)"
  using guess_on_finished_game_rejected[of won_state 0 "the (games won_state 0)" "Account 2" chain0 42]
  by (simp add: won_state_games)

section \<open>The secret stays in its range\<close>

text \<open>
  Claim C6. In every state reached from the empty storage by any sequence of calls,
  every stored game record has \<open>min_number \<le> secret_number \<le> max_number\<close>: at
  creation, and after every later call.
\<close>

theorem stored_secret_in_range:
  assumes "games (run cs (init_state bal)) game_id = Some g"
  shows "min_number g \<le> secret_number g \<and> secret_number g \<le> max_number g"
  using wf_state_game(1,2)[OF wf_state_reachable assms] by simp

theorem stored_secret_in_range_witness:
  "games wide_state 0 \<noteq> None \<and>
   min_number (the (games wide_state 0)) \<le> secret_number (the (games wide_state 0)) \<and>
   secret_number (the (games wide_state 0)) \<le> max_number (the (games wide_state 0))"
  using stored_secret_in_range[of "[CreateGame 0 chain0 1 100 300]" funded 0
      "the (games wide_state 0)", folded wide_state_def]
  by (simp add: wide_state_eval)

section \<open>Game ids and the counter\<close>

lemma create_game_total:
  "total_games (snd (create_game c ch mn mx fee s)) =
     (case fst (create_game c ch mn mx fee s) of Inl _ \<Rightarrow> total_games s
      | Inr i \<Rightarrow> total_games s + 1)"
  and create_game_id:
  "fst (create_game c ch mn mx fee s) = Inr i \<Longrightarrow> i = total_games s"
proof -
  obtain r s' where p: "create_game c ch mn mx fee s = (r, s')" by (cases "create_game c ch mn mx fee s")
  show "total_games (snd (create_game c ch mn mx fee s)) =
     (case fst (create_game c ch mn mx fee s) of Inl _ \<Rightarrow> total_games s
      | Inr i \<Rightarrow> total_games s + 1)"
  proof (cases r)
    case (Inl e) with p show ?thesis by (auto dest: create_game_Inl)
  next
    case (Inr j) with p show ?thesis by (auto elim: create_game_Inr)
  qed
  show "i = total_games s" if "fst (create_game c ch mn mx fee s) = Inr i"
    using that p by (auto elim: create_game_Inr)
qed

lemma guess_total: "total_games (snd (guess (Account a) ch gid n s)) = total_games s"
proof -
  obtain r s' where p: "guess (Account a) ch gid n s = (r, s')" by (cases "guess (Account a) ch gid n s")
  show ?thesis
  proof (cases r)
    case (Inl e) with p show ?thesis by (auto dest: guess_Inl)
  next
    case (Inr j) with p show ?thesis by (auto elim: guess_Inr)
  qed
qed

lemma step_total_mono: "total_games s \<le> total_games (step c s)"
  by (cases c) (auto simp: create_game_total guess_total split: sum.splits)

lemma run_Cons: "run (c # cs) s = run cs (step c s)"
  by (simp add: run_def)

lemma run_total_mono: "total_games s \<le> total_games (run cs s)"
proof (induction cs arbitrary: s)
  case Nil show ?case by (simp add: run_def)
next
  case (Cons c cs)
  have "total_games s \<le> total_games (step c s)" by (rule step_total_mono)
  also have "\<dots> \<le> total_games (run cs (step c s))" by (rule Cons.IH)
  finally show ?case by (simp add: run_Cons)
qed

lemma created_ids_from:
  "created_ids cs s = [total_games s ..< total_games (run cs s)]"
proof (induction cs arbitrary: s)
  case Nil
  show ?case by (simp add: run_def)
next
  case (Cons c cs)
  have IH: "created_ids cs (step c s) = [total_games (step c s) ..< total_games (run cs (step c s))]"
    by (rule Cons.IH)
  have mono: "total_games (step c s) \<le> total_games (run cs (step c s))"
    by (rule run_total_mono)
  show ?case
  proof (cases c)
    case (CreateGame a ch mn mx fee)
    show ?thesis
    proof (cases "fst (create_game (Account a) ch mn mx fee s)")
      case (Inl e)
      then have "total_games (step c s) = total_games s"
        using CreateGame by (simp add: create_game_total)
      with IH Inl CreateGame show ?thesis by (simp add: run_Cons)
    next
      case (Inr i)
      then have t: "total_games (step c s) = total_games s + 1" and i: "i = total_games s"
        using CreateGame by (simp_all add: create_game_total create_game_id)
      from mono t have "total_games s < total_games (run cs (step c s))" by simp
      then have "[total_games s ..< total_games (run cs (step c s))]
                 = total_games s # [total_games s + 1 ..< total_games (run cs (step c s))]"
        by (simp add: upt_conv_Cons)
      with IH Inr CreateGame t i show ?thesis by (simp add: run_Cons)
    qed
  next
    case (Guess a ch gid n)
    then have "total_games (step c s) = total_games s" by (simp add: guess_total)
    with IH Guess show ?thesis by (simp add: run_Cons)
  next
    case (StxTransfer a r amt)
    then have "total_games (step c s) = total_games s" by (simp split: sum.splits)
    with IH StxTransfer show ?thesis by (simp add: run_Cons)
  qed
qed

text \<open>
  Claim C7. Over any sequence of calls from the empty storage, the ids returned by the
  successful \<^verbatim>\<open>create-game\<close> calls are \<open>0, 1, 2, ...\<close> in this order: strictly
  increasing from 0 and never repeated. After the sequence, \<^verbatim>\<open>get-total-games\<close>
  returns the number of successful creations.
\<close>

theorem game_ids_count_up:
  "created_ids cs (init_state bal) = [0 ..< length (created_ids cs (init_state bal))] \<and>
   sorted_wrt (<) (created_ids cs (init_state bal)) \<and>
   distinct (created_ids cs (init_state bal)) \<and>
   get_total_games (run cs (init_state bal)) = Inr (length (created_ids cs (init_state bal)))"
proof -
  have "created_ids cs (init_state bal) = [0 ..< total_games (run cs (init_state bal))]"
    using created_ids_from[of cs "init_state bal"] by (simp add: init_state_def)
  then show ?thesis
    by (simp add: get_total_games_def)
qed


theorem game_ids_count_up_witness:
  "created_ids [CreateGame 0 chain0 42 42 300, CreateGame 2 chain0 100 10 300,
                Guess 2 chain0 0 42, CreateGame 3 chain0 5 100 0] (init_state funded) = [0, 1] \<and>
   get_total_games (run [CreateGame 0 chain0 42 42 300, CreateGame 2 chain0 100 10 300,
                Guess 2 chain0 0 42, CreateGame 3 chain0 5 100 0] (init_state funded)) = Inr 2"
proof -
  let ?cs = "[CreateGame 0 chain0 42 42 300, CreateGame 2 chain0 100 10 300,
                Guess 2 chain0 0 42, CreateGame 3 chain0 5 100 0]"
  have bad: "create_game c chain0 100 10 300 s = (Inl (Aborted ArithmeticUnderflow), s)" for c s
    by (simp add: create_game_def define_public_def create_game_body_def chain0_simps
        uint_sub_def)
  have ids: "created_ids ?cs (init_state funded) = [0, 1]"
    by (simp add: create_on_chain0 small_uint bad guess_total init_state_def)
  have tot: "get_total_games (run ?cs (init_state funded))
               = Inr (length (created_ids ?cs (init_state funded)))"
    using game_ids_count_up[of ?cs funded] by blast
  show ?thesis
    unfolding tot ids by simp
qed

section \<open>How the secret is derived\<close>

text \<open>
  Claim C8. A successful \<^verbatim>\<open>create-game\<close> stores the secret
  \<open>min + (seed mod range)\<close> with \<open>range = max - min + 1\<close>, where the seed is the
  exclusive-or of the first 16 bytes of the previous block's header hash, read as a
  little-endian number, with the block height. The caller, the fee and the storage do
  not enter: two successful calls on the same chain context with the same range store
  the same secret.
\<close>

theorem secret_derivation:
  assumes "create_game c ch min_n max_n fee s = (Inr game_id, s')"
    and "create_game c' ch min_n max_n fee' t = (Inr game_id', t')"
  shows "(\<exists>block_hash g. header_hash ch (block_height ch - 1) = Some block_hash \<and>
            games s' game_id = Some g \<and>
            secret_number g =
              spec_secret (buff_to_uint_le (take 16 block_hash)) (block_height ch) min_n max_n) \<and>
         map_option secret_number (games s' game_id) = map_option secret_number (games t' game_id')"
proof -
  from assms(1) obtain h where a:
    "game_id = total_games s" "min_n \<le> max_n" "0 < block_height ch"
    "header_hash ch (block_height ch - 1) = Some h" "16 \<le> length h"
    "total_games s' = total_games s + 1"
    "games s' = (games s)(total_games s \<mapsto>
        \<lparr>creator = c,
         secret_number = spec_secret (buff_to_uint_le (take 16 h)) (block_height ch) min_n max_n,
         min_number = min_n, max_number = max_n, entry_fee = fee, prize_pool = 0,
         guess_count = 0, winner = None, status = ''active'',
         created_at = block_height ch\<rparr>)"
    "player_guesses s' = player_guesses s" "game_guesses s' = game_guesses s"
    "balances s' = balances s"
    by (rule create_game_Inr)
  from assms(2) obtain h' where b:
    "game_id' = total_games t" "min_n \<le> max_n" "0 < block_height ch"
    "header_hash ch (block_height ch - 1) = Some h'" "16 \<le> length h'"
    "total_games t' = total_games t + 1"
    "games t' = (games t)(total_games t \<mapsto>
        \<lparr>creator = c',
         secret_number = spec_secret (buff_to_uint_le (take 16 h')) (block_height ch) min_n max_n,
         min_number = min_n, max_number = max_n, entry_fee = fee', prize_pool = 0,
         guess_count = 0, winner = None, status = ''active'',
         created_at = block_height ch\<rparr>)"
    "player_guesses t' = player_guesses t" "game_guesses t' = game_guesses t"
    "balances t' = balances t"
    by (rule create_game_Inr)
  from a(4) b(4) have "h' = h" by simp
  with a(1,4,7) b(1,7) show ?thesis by simp
qed

theorem secret_derivation_witness:
  "create_game (Account 0) chain0 5 100 300 (init_state funded)
     = (Inr 0, snd (create_game (Account 0) chain0 5 100 300 (init_state funded))) \<and>
   create_game (Account 7) chain0 5 100 0 open_state
     = (Inr 1, snd (create_game (Account 7) chain0 5 100 0 open_state)) \<and>
   header_hash chain0 (block_height chain0 - 1) = Some (replicate 32 0) \<and>
   map_option secret_number
     (games (snd (create_game (Account 0) chain0 5 100 300 (init_state funded))) 0) = Some 6 \<and>
   map_option secret_number
     (games (snd (create_game (Account 7) chain0 5 100 0 open_state)) 1) = Some 6 \<and>
   spec_secret (buff_to_uint_le (take 16 (replicate 32 0))) (block_height chain0) 5 100 = 6"
proof -
  have one: "create_game (Account 0) chain0 5 100 300 (init_state funded)
     = (Inr 0, snd (create_game (Account 0) chain0 5 100 300 (init_state funded)))"
    by (simp add: create_on_chain0 small_uint init_state_def)
  have two: "create_game (Account 7) chain0 5 100 0 open_state
     = (Inr 1, snd (create_game (Account 7) chain0 5 100 0 open_state))"
    by (simp add: create_on_chain0 small_uint open_state_eval)
  have v: "spec_secret (buff_to_uint_le (take 16 (replicate 32 0))) (block_height chain0) 5 100 = 6"
    by (simp add: spec_secret_def buff_to_uint_le_zeros chain0_simps)
  have hh: "header_hash chain0 (block_height chain0 - 1) = Some (replicate 32 0)"
    by (simp add: chain0_simps)
  from secret_derivation[OF one two] obtain h g where
    k: "header_hash chain0 (block_height chain0 - 1) = Some h"
       "games (snd (create_game (Account 0) chain0 5 100 300 (init_state funded))) 0 = Some g"
       "secret_number g = spec_secret (buff_to_uint_le (take 16 h)) (block_height chain0) 5 100"
    and e: "map_option secret_number
              (games (snd (create_game (Account 0) chain0 5 100 300 (init_state funded))) 0)
            = map_option secret_number
              (games (snd (create_game (Account 7) chain0 5 100 0 open_state)) 1)"
    by blast
  from k(1) hh have "h = replicate 32 0" by simp
  with k(2,3) v have first: "map_option secret_number
      (games (snd (create_game (Account 0) chain0 5 100 300 (init_state funded))) 0) = Some 6"
    by simp
  with e have second: "map_option secret_number
      (games (snd (create_game (Account 7) chain0 5 100 0 open_state)) 1) = Some 6"
    by simp
  from one two hh first second v show ?thesis by blast
qed

section \<open>An inverted range\<close>

lemma create_game_never_invalid_params:
  "fst (create_game c ch min_n max_n fee s) \<noteq> Inl ERR_INVALID_PARAMS"
proof (cases "create_game c ch min_n max_n fee s")
  case (Pair r s')
  have "r \<noteq> Inl (Err 105)"
  proof
    assume "r = Inl (Err 105)"
    with Pair have "fst (create_game_body c ch min_n max_n fee s) = Inl (Err 105)"
      by (auto simp: create_game_def define_public_def split: prod.splits sum.splits)
    then show False
      by (auto simp: create_game_body_def Let_def uint_sub_def uint_add_def uint_mod_def
          ERR_INVALID_PARAMS_def split: sum.splits option.splits if_splits)
  qed
  with Pair show ?thesis by (simp add: ERR_INVALID_PARAMS_def)
qed

lemma create_game_inverted_range:
  assumes "max_n < min_n"
  shows "create_game c ch min_n max_n fee s = (Inl (Aborted ArithmeticUnderflow), s) \<or>
         create_game c ch min_n max_n fee s = (Inl (Err 109), s)"
  using assms
  by (auto simp: create_game_def define_public_def create_game_body_def Let_def uint_sub_def
      split: option.splits)

text \<open>
  Claim C2 says that \<^verbatim>\<open>create-game\<close> with \<open>min > max\<close> fails with
  \<^verbatim>\<open>ERR_INVALID_PARAMS\<close> (105). The \<^verbatim>\<open>asserts!\<close> that returns 105 stands in the
  body, after the \<^verbatim>\<open>let\<close> binding of \<^verbatim>\<open>range\<close>, whose subtraction
  \<^verbatim>\<open>(- max-number min-number)\<close> underflows first: the call aborts with a runtime
  error, and 105 is never returned. The storage and the counter are unchanged, as the
  claim says.
\<close>

theorem create_game_inverted_range_aborts:
  "create_game (Account 0) chain0 100 10 100000 (init_state funded)
     = (Inl (Aborted ArithmeticUnderflow), init_state funded)"
  by (simp add: create_game_def define_public_def create_game_body_def chain0_simps uint_sub_def)

section \<open>Lookups on an unknown game id\<close>

text \<open>
  Claim C9 as the code has it. For a game id with no stored game,
  \<^verbatim>\<open>get-game-winner\<close>, \<^verbatim>\<open>get-guess-count\<close> and \<^verbatim>\<open>get-prize-pool\<close> return the
  absent value \<^verbatim>\<open>none\<close>, and \<^verbatim>\<open>is-game-active\<close> returns an explicit error, the
  response \<^verbatim>\<open>(err ERR_GAME_NOT_FOUND)\<close>, rather than an absent value. For every
  stored game the three lookups return \<^verbatim>\<open>some\<close> of the field's value, whatever
  that value is, so an undecided winner reads \<^verbatim>\<open>(some none)\<close> and an empty pool or
  count \<^verbatim>\<open>(some u0)\<close>, and \<^verbatim>\<open>is-game-active\<close> returns \<^verbatim>\<open>ok\<close> of whether the
  status is \<open>active\<close>: each lookup is \<^verbatim>\<open>none\<close> exactly when the game is unknown,
  and the answer for an unknown id differs from every answer for a known one. The
  functions take the state and return a value only; they have no state to return.
\<close>

theorem lookups_unknown_and_known:
  "(games s game_id = None \<longrightarrow>
      get_game_winner game_id s = None \<and> get_guess_count game_id s = None \<and>
      get_prize_pool game_id s = None \<and> is_game_active game_id s = Inl (ErrErr 101)) \<and>
   (\<forall>g. games s game_id = Some g \<longrightarrow>
      get_game_winner game_id s = Some (winner g) \<and>
      get_guess_count game_id s = Some (guess_count g) \<and>
      get_prize_pool game_id s = Some (prize_pool g) \<and>
      is_game_active game_id s = Inr (status g = ''active'')) \<and>
   (get_game_winner game_id s = None \<longleftrightarrow> games s game_id = None) \<and>
   (get_guess_count game_id s = None \<longleftrightarrow> games s game_id = None) \<and>
   (get_prize_pool game_id s = None \<longleftrightarrow> games s game_id = None) \<and>
   (is_game_active game_id s = Inl (ErrErr 101) \<longleftrightarrow> games s game_id = None)"
proof (cases "games s game_id")
  case None
  then show ?thesis
    by (simp add: get_game_winner_def get_guess_count_def get_prize_pool_def
        is_game_active_def)
next
  case (Some g)
  then show ?thesis
    by (simp add: get_game_winner_def get_guess_count_def get_prize_pool_def
        is_game_active_def)
qed

theorem lookups_unknown_and_known_witness:
  "games won_state 7 = None \<and>
   get_game_winner 7 won_state = None \<and> get_guess_count 7 won_state = None \<and>
   get_prize_pool 7 won_state = None \<and> is_game_active 7 won_state = Inl (ErrErr 101) \<and>
   map_option winner (games won_state 0) = Some (Some (Account 1)) \<and>
   map_option guess_count (games won_state 0) = Some 1 \<and>
   map_option status (games won_state 0) = Some ''won'' \<and>
   get_game_winner 0 won_state = Some (Some (Account 1)) \<and>
   get_guess_count 0 won_state = Some 1 \<and> get_prize_pool 0 won_state = Some 0 \<and>
   is_game_active 0 won_state = Inr False"
proof -
  have unknown: "games won_state 7 = None" by (rule won_state_unknown)
  have known: "games won_state 0 =
     Some \<lparr>creator = Account 0, secret_number = 42, min_number = 42,
           max_number = 42, entry_fee = 300, prize_pool = 0, guess_count = 1,
           winner = Some (Account 1), status = ''won'', created_at = 1\<rparr>"
    by (rule won_state_games)
  from lookups_unknown_and_known[of won_state 7] unknown
  have a: "get_game_winner 7 won_state = None \<and> get_guess_count 7 won_state = None \<and>
      get_prize_pool 7 won_state = None \<and> is_game_active 7 won_state = Inl (ErrErr 101)"
    by blast
  from lookups_unknown_and_known[of won_state 0] known
  have b: "get_game_winner 0 won_state = Some (Some (Account 1)) \<and>
      get_guess_count 0 won_state = Some 1 \<and> get_prize_pool 0 won_state = Some 0 \<and>
      is_game_active 0 won_state = Inr False"
    by simp
  from unknown a b show ?thesis by (simp add: known)
qed

theorem unknown_differs_from_empty:
  "winner (the (games open_state 0)) = None \<and>
   get_game_winner 0 open_state = Some None \<and> get_game_winner 7 open_state = None \<and>
   get_guess_count 0 open_state = Some 0 \<and> get_guess_count 7 open_state = None \<and>
   get_prize_pool 0 open_state = Some 0 \<and> get_prize_pool 7 open_state = None \<and>
   get_game_winner 0 open_state \<noteq> get_game_winner 7 open_state"
  by (simp add: get_game_winner_def get_guess_count_def get_prize_pool_def open_state_eval)

section \<open>Runs of wrong guesses, and the example states with full histories\<close>

lemma run_append: "run (xs @ ys) s = run ys (run xs s)"
  by (simp add: run_def)

lemma run_Nil: "run [] s = s"
  by (simp add: run_def)

lemma guess_continue_fields:
  fixes ch :: chain
  assumes "games s gid = Some g" "status g = ''active''"
    "min_number g \<le> n" "n \<le> max_number g" "n \<noteq> secret_number g"
    "entry_fee g \<le> balances s (Account a)"
    "length (get_player_guesses gid (Account a) s) < 10" "length (log_of s gid) < 1000"
    "prize_pool g + entry_fee g \<le> uint_max" "guess_count g < uint_max"
  defines "s' \<equiv> step (Guess a ch gid n) s"
  shows "games s' = (games s)(gid \<mapsto> g\<lparr>prize_pool := prize_pool g + entry_fee g,
                                         guess_count := guess_count g + 1\<rparr>)"
    "get_player_guesses gid (Account a) s' = get_player_guesses gid (Account a) s @ [n]"
    "\<And>k. k \<noteq> (gid, Account a) \<Longrightarrow> player_guesses s' k = player_guesses s k"
    "length (log_of s' gid) = length (log_of s gid) + 1"
    "balances s' (Account a) = balances s (Account a) - entry_fee g"
    "balances s' Contract = balances s Contract + entry_fee g"
    "\<And>p. p \<noteq> Account a \<Longrightarrow> p \<noteq> Contract \<Longrightarrow> balances s' p = balances s p"
    "total_games s' = total_games s"
proof -
  have pay: "entry_fee g = 0 \<or> entry_fee g \<le> balances s (Account a)"
    using assms(6) by simp
  note ok = guess_continue_ok[OF assms(1-5) pay assms(7-10), of ch]
  show "games s' = (games s)(gid \<mapsto> g\<lparr>prize_pool := prize_pool g + entry_fee g,
                                         guess_count := guess_count g + 1\<rparr>)"
    "get_player_guesses gid (Account a) s' = get_player_guesses gid (Account a) s @ [n]"
    "\<And>k. k \<noteq> (gid, Account a) \<Longrightarrow> player_guesses s' k = player_guesses s k"
    "length (log_of s' gid) = length (log_of s gid) + 1"
    "balances s' (Account a) = balances s (Account a) - entry_fee g"
    "balances s' Contract = balances s Contract + entry_fee g"
    "\<And>p. p \<noteq> Account a \<Longrightarrow> p \<noteq> Contract \<Longrightarrow> balances s' p = balances s p"
    "total_games s' = total_games s"
    unfolding s'_def by (simp_all add: ok fee_paid_def get_player_guesses_def log_of_def)
qed

lemma run_losing_guesses:
  fixes ch :: chain
  assumes "games s gid = Some g" "status g = ''active''"
    "\<forall>n\<in>set ns. min_number g \<le> n \<and> n \<le> max_number g \<and> n \<noteq> secret_number g"
    "entry_fee g * length ns \<le> balances s (Account a)"
    "length (get_player_guesses gid (Account a) s) + length ns \<le> 10"
    "length (log_of s gid) + length ns \<le> 1000"
    "prize_pool g + entry_fee g * length ns \<le> uint_max"
    "guess_count g + length ns \<le> uint_max"
  defines "s' \<equiv> run (map (Guess a ch gid) ns) s"
  shows "games s' = (games s)(gid \<mapsto> g\<lparr>prize_pool := prize_pool g + entry_fee g * length ns,
                                         guess_count := guess_count g + length ns\<rparr>) \<and>
    get_player_guesses gid (Account a) s' = get_player_guesses gid (Account a) s @ ns \<and>
    (\<forall>k. k \<noteq> (gid, Account a) \<longrightarrow> player_guesses s' k = player_guesses s k) \<and>
    length (log_of s' gid) = length (log_of s gid) + length ns \<and>
    balances s' (Account a) = balances s (Account a) - entry_fee g * length ns \<and>
    balances s' Contract = balances s Contract + entry_fee g * length ns \<and>
    (\<forall>p. p \<noteq> Account a \<and> p \<noteq> Contract \<longrightarrow> balances s' p = balances s p) \<and>
    total_games s' = total_games s"
  using assms(1-8) unfolding s'_def
proof (induction ns arbitrary: s g)
  case Nil
  then show ?case by (simp add: run_Nil fun_upd_idem)
next
  case (Cons n ns)
  let ?s1 = "step (Guess a ch gid n) s"
  let ?g1 = "g\<lparr>prize_pool := prize_pool g + entry_fee g, guess_count := guess_count g + 1\<rparr>"
  from Cons.prems have n: "min_number g \<le> n" "n \<le> max_number g" "n \<noteq> secret_number g"
    and rest: "\<forall>m\<in>set ns. min_number g \<le> m \<and> m \<le> max_number g \<and> m \<noteq> secret_number g"
    by simp_all
  from Cons.prems(4) have fee: "entry_fee g \<le> balances s (Account a)"
    and fees: "entry_fee g * length ns \<le> balances s (Account a) - entry_fee g"
    by (simp_all add: algebra_simps)
  from Cons.prems have cap: "length (get_player_guesses gid (Account a) s) < 10"
    "length (log_of s gid) < 1000" "prize_pool g + entry_fee g \<le> uint_max"
    "guess_count g < uint_max"
    by (simp_all add: algebra_simps)
  note f = guess_continue_fields[OF Cons.prems(1,2) n fee cap, where ch=ch]
  have g1: "games ?s1 gid = Some ?g1" using f(1) by simp
  have IH: "games (run (map (Guess a ch gid) ns) ?s1) =
      (games ?s1)(gid \<mapsto> ?g1\<lparr>prize_pool := prize_pool ?g1 + entry_fee ?g1 * length ns,
                                guess_count := guess_count ?g1 + length ns\<rparr>) \<and>
    get_player_guesses gid (Account a) (run (map (Guess a ch gid) ns) ?s1)
      = get_player_guesses gid (Account a) ?s1 @ ns \<and>
    (\<forall>k. k \<noteq> (gid, Account a) \<longrightarrow>
        player_guesses (run (map (Guess a ch gid) ns) ?s1) k = player_guesses ?s1 k) \<and>
    length (log_of (run (map (Guess a ch gid) ns) ?s1) gid) = length (log_of ?s1 gid) + length ns \<and>
    balances (run (map (Guess a ch gid) ns) ?s1) (Account a)
      = balances ?s1 (Account a) - entry_fee ?g1 * length ns \<and>
    balances (run (map (Guess a ch gid) ns) ?s1) Contract
      = balances ?s1 Contract + entry_fee ?g1 * length ns \<and>
    (\<forall>p. p \<noteq> Account a \<and> p \<noteq> Contract \<longrightarrow>
        balances (run (map (Guess a ch gid) ns) ?s1) p = balances ?s1 p) \<and>
    total_games (run (map (Guess a ch gid) ns) ?s1) = total_games ?s1"
  proof (rule Cons.IH[OF g1])
    show "status ?g1 = ''active''" using Cons.prems(2) by simp
    show "\<forall>n\<in>set ns. min_number ?g1 \<le> n \<and> n \<le> max_number ?g1 \<and> n \<noteq> secret_number ?g1"
      using rest by simp
    show "entry_fee ?g1 * length ns \<le> balances ?s1 (Account a)"
      using fees f(5) by simp
    show "length (get_player_guesses gid (Account a) ?s1) + length ns \<le> 10"
      using Cons.prems(5) f(2) by simp
    show "length (log_of ?s1 gid) + length ns \<le> 1000"
      using Cons.prems(6) f(4) by simp
    show "prize_pool ?g1 + entry_fee ?g1 * length ns \<le> uint_max"
      using Cons.prems(7) by (simp add: algebra_simps)
    show "guess_count ?g1 + length ns \<le> uint_max"
      using Cons.prems(8) by simp
  qed
  have r: "run (map (Guess a ch gid) (n # ns)) s = run (map (Guess a ch gid) ns) ?s1"
    by (simp add: run_Cons)
  show ?case
    unfolding r using IH f fee fees by (simp add: algebra_simps)
qed

lemma example_states:
  "games open_state 0 = Some single_game" "balances open_state = funded"
  "player_guesses open_state = Map.empty" "game_guesses open_state = Map.empty"
  "games broke_state 0 = Some single_game" "balances broke_state = broke"
  "games wide_state 0 = Some wide_game" "balances wide_state = funded"
  "player_guesses wide_state = Map.empty" "game_guesses wide_state = Map.empty"
  by (simp_all add: open_state_eval broke_state_eval wide_state_eval single_game_def
      wide_game_def)

lemma example_games:
  "status single_game = ''active''" "secret_number single_game = 42"
  "min_number single_game = 42" "max_number single_game = 42" "entry_fee single_game = 300"
  "prize_pool single_game = 0" "guess_count single_game = 0"
  "status wide_game = ''active''" "secret_number wide_game = 2"
  "min_number wide_game = 1" "max_number wide_game = 100" "entry_fee wide_game = 300"
  "prize_pool wide_game = 0" "guess_count wide_game = 0"
  by (simp_all add: single_game_def wide_game_def)

lemma busy_start:
  "step (CreateGame 0 chain0 1 100 300) (init_state busy_funds) =
     \<lparr>total_games = 1, games = [0 \<mapsto> wide_game], player_guesses = Map.empty,
      game_guesses = Map.empty, balances = busy_funds\<rparr>"
  by (simp add: create_on_chain0 init_state_def small_uint wide_game_def numeral_2_eq_2)

lemma busy_state_facts:
  "games busy_state 0 = Some busy_game \<and>
   get_player_guesses 0 (Account 3) busy_state = [50..<60] \<and>
   get_player_guesses 0 (Account 2) busy_state = [60..<70] \<and>
   balances busy_state (Account 3) = 1000 \<and>
   balances busy_state (Account 2) = 0"
proof -
  define s0 where "s0 = step (CreateGame 0 chain0 1 100 300) (init_state busy_funds)"
  define s1 where "s1 = run (map (Guess 3 chain0 0) [50..<60]) s0"
  have s0: "s0 = \<lparr>total_games = 1, games = [0 \<mapsto> wide_game], player_guesses = Map.empty,
      game_guesses = Map.empty, balances = busy_funds\<rparr>"
    unfolding s0_def by (rule busy_start)
  let ?g1 = "wide_game\<lparr>prize_pool := 3000, guess_count := 10\<rparr>"
  have split: "busy_state = run (map (Guess 2 chain0 0) [60..<70]) s1"
    by (simp only: busy_state_def run_Cons run_append s0_def s1_def)
  have one: "games s1 = (games s0)(0 \<mapsto> wide_game\<lparr>prize_pool := prize_pool wide_game + entry_fee wide_game * length [50..<60],
                                         guess_count := guess_count wide_game + length [50..<60]\<rparr>) \<and>
    get_player_guesses 0 (Account 3) s1 = get_player_guesses 0 (Account 3) s0 @ [50..<60] \<and>
    (\<forall>k. k \<noteq> (0, Account 3) \<longrightarrow> player_guesses s1 k = player_guesses s0 k) \<and>
    length (log_of s1 0) = length (log_of s0 0) + length [50..<60] \<and>
    balances s1 (Account 3) = balances s0 (Account 3) - entry_fee wide_game * length [50..<60] \<and>
    balances s1 Contract = balances s0 Contract + entry_fee wide_game * length [50..<60] \<and>
    (\<forall>p. p \<noteq> Account 3 \<and> p \<noteq> Contract \<longrightarrow> balances s1 p = balances s0 p) \<and>
    total_games s1 = total_games s0"
    unfolding s1_def
    by (rule run_losing_guesses)
       (simp_all add: s0 example_games get_player_guesses_def log_of_def busy_funds_def
          small_uint)
  then have s1: "games s1 0 = Some ?g1"
    "get_player_guesses 0 (Account 3) s1 = [50..<60]"
    "player_guesses s1 (0, Account 2) = None"
    "length (log_of s1 0) = 10"
    "balances s1 (Account 3) = 1000" "balances s1 (Account 2) = 3000"
    by (simp_all add: s0 example_games get_player_guesses_def log_of_def busy_funds_def)
  have two: "games busy_state = (games s1)(0 \<mapsto> ?g1\<lparr>prize_pool := prize_pool ?g1 + entry_fee ?g1 * length [60..<70],
                                         guess_count := guess_count ?g1 + length [60..<70]\<rparr>) \<and>
    get_player_guesses 0 (Account 2) busy_state = get_player_guesses 0 (Account 2) s1 @ [60..<70] \<and>
    (\<forall>k. k \<noteq> (0, Account 2) \<longrightarrow> player_guesses busy_state k = player_guesses s1 k) \<and>
    length (log_of busy_state 0) = length (log_of s1 0) + length [60..<70] \<and>
    balances busy_state (Account 2) = balances s1 (Account 2) - entry_fee ?g1 * length [60..<70] \<and>
    balances busy_state Contract = balances s1 Contract + entry_fee ?g1 * length [60..<70] \<and>
    (\<forall>p. p \<noteq> Account 2 \<and> p \<noteq> Contract \<longrightarrow> balances busy_state p = balances s1 p) \<and>
    total_games busy_state = total_games s1"
    unfolding split
    by (rule run_losing_guesses)
       (simp_all add: s1 example_games get_player_guesses_def small_uint)
  have pg: "player_guesses busy_state (0, Account 3) = player_guesses s1 (0, Account 3)"
    using two by simp
  show ?thesis
    using two s1 pg by (simp add: example_games busy_game_def wide_game_def get_player_guesses_def)
qed

lemma busy_state_simps:
  "games busy_state 0 = Some busy_game"
  "get_player_guesses 0 (Account 3) busy_state = [50..<60]"
  "get_player_guesses 0 (Account 2) busy_state = [60..<70]"
  "balances busy_state (Account 3) = 1000"
  "balances busy_state (Account 2) = 0"
  using busy_state_facts by simp_all

lemma busy_game_simps:
  "status busy_game = ''active''" "min_number busy_game = 1" "max_number busy_game = 100"
  "secret_number busy_game = 2" "entry_fee busy_game = 300" "prize_pool busy_game = 6000"
  by (simp_all add: busy_game_def)

lemma free_start:
  "step (CreateGame 0 chain0 1 100 0) (init_state funded) =
     \<lparr>total_games = 1, games = [0 \<mapsto> wide_game\<lparr>entry_fee := 0\<rparr>],
      player_guesses = Map.empty, game_guesses = Map.empty, balances = funded\<rparr>"
  by (simp add: create_on_chain0 init_state_def small_uint wide_game_def numeral_2_eq_2)

lemma free_state_facts:
  "games free_state 0 = Some free_game \<and>
   get_player_guesses 0 (Account 3) free_state = [50..<60] \<and>
   get_player_guesses 0 (Account 2) free_state = [] \<and>
   length (log_of free_state 0) = 10"
proof -
  define s0 where "s0 = step (CreateGame 0 chain0 1 100 0) (init_state funded)"
  have s0: "s0 = \<lparr>total_games = 1, games = [0 \<mapsto> wide_game\<lparr>entry_fee := 0\<rparr>],
      player_guesses = Map.empty, game_guesses = Map.empty, balances = funded\<rparr>"
    unfolding s0_def by (rule free_start)
  let ?g0 = "wide_game\<lparr>entry_fee := 0\<rparr>"
  have split: "free_state = run (map (Guess 3 chain0 0) [50..<60]) s0"
    by (simp only: free_state_def run_Cons s0_def)
  have one: "games free_state = (games s0)(0 \<mapsto> ?g0\<lparr>prize_pool := prize_pool ?g0 + entry_fee ?g0 * length [50..<60],
                                         guess_count := guess_count ?g0 + length [50..<60]\<rparr>) \<and>
    get_player_guesses 0 (Account 3) free_state = get_player_guesses 0 (Account 3) s0 @ [50..<60] \<and>
    (\<forall>k. k \<noteq> (0, Account 3) \<longrightarrow> player_guesses free_state k = player_guesses s0 k) \<and>
    length (log_of free_state 0) = length (log_of s0 0) + length [50..<60] \<and>
    balances free_state (Account 3) = balances s0 (Account 3) - entry_fee ?g0 * length [50..<60] \<and>
    balances free_state Contract = balances s0 Contract + entry_fee ?g0 * length [50..<60] \<and>
    (\<forall>p. p \<noteq> Account 3 \<and> p \<noteq> Contract \<longrightarrow> balances free_state p = balances s0 p) \<and>
    total_games free_state = total_games s0"
    unfolding split
    by (rule run_losing_guesses)
       (simp_all add: s0 example_games get_player_guesses_def log_of_def small_uint)
  have pg: "player_guesses free_state (0, Account 2) = player_guesses s0 (0, Account 2)"
    using one by simp
  show ?thesis
    using one pg
    by (simp add: s0 example_games free_game_def wide_game_def get_player_guesses_def
        log_of_def)
qed

lemma free_state_simps:
  "games free_state 0 = Some free_game"
  "get_player_guesses 0 (Account 3) free_state = [50..<60]"
  "get_player_guesses 0 (Account 2) free_state = []"
  "length (log_of free_state 0) = 10"
  using free_state_facts by simp_all

lemma free_game_simps:
  "status free_game = ''active''" "min_number free_game = 1" "max_number free_game = 100"
  "secret_number free_game = 2" "entry_fee free_game = 0" "prize_pool free_game = 0"
  by (simp_all add: free_game_def)

lemma pay_entry_fee_zero: "pay_entry_fee c 0 s = (Inr True, s)"
  by (simp add: pay_entry_fee_def)

section \<open>The eleventh guess of a player\<close>

text \<open>
  Claim C3 as the code has it. When a player already has ten recorded guesses on an
  active game, a further in-range guess fails and changes nothing: the player's ten
  entries, the game's list, the game record and every balance are as before. The
  error is \<^verbatim>\<open>ERR_TOO_MANY_GUESSES\<close> (108) when the fee transfer that precedes the
  capacity check goes through (the fee is zero, or the caller holds it), and the
  transfer is undone with the rest. A caller who cannot pay the fee gets the
  transfer's own error \<^verbatim>\<open>(err u1)\<close> before the capacity check is reached.
\<close>

theorem eleventh_guess_rejected:
  assumes "games s game_id = Some g" and "status g = ''active''"
    and "min_number g \<le> n" and "n \<le> max_number g"
    and "length (get_player_guesses game_id (Account a) s) = 10"
  shows "(entry_fee g = 0 \<or> entry_fee g \<le> balances s (Account a) \<longrightarrow>
            guess (Account a) ch game_id n s = (Inl (Err 108), s)) \<and>
         (0 < entry_fee g \<and> balances s (Account a) < entry_fee g \<longrightarrow>
            guess (Account a) ch game_id n s = (Inl (Err 1), s))"
proof (intro conjI impI)
  assume "entry_fee g = 0 \<or> entry_fee g \<le> balances s (Account a)"
  with assms have "\<exists>t. guess_body (Account a) ch game_id n s = (Inl (Err 108), t)"
    by (simp add: guess_body_checked pay_entry_fee_ok record_guess_player_full
        ERR_TOO_MANY_GUESSES_def)
  then show "guess (Account a) ch game_id n s = (Inl (Err 108), s)"
    unfolding guess_def by (auto intro: define_public_body_Inl)
next
  assume "0 < entry_fee g \<and> balances s (Account a) < entry_fee g"
  with assms have "guess_body (Account a) ch game_id n s = (Inl (Err 1), s)"
    by (simp add: guess_body_checked pay_entry_fee_short)
  then show "guess (Account a) ch game_id n s = (Inl (Err 1), s)"
    unfolding guess_def by (rule define_public_body_Inl)
qed

theorem eleventh_guess_rejected_witness:
  "games busy_state 0 = Some busy_game \<and> status busy_game = ''active'' \<and>
   length (get_player_guesses 0 (Account 3) busy_state) = 10 \<and>
   entry_fee busy_game \<le> balances busy_state (Account 3) \<and>
   guess (Account 3) chain0 0 50 busy_state = (Inl (Err 108), busy_state)"
  using eleventh_guess_rejected[of busy_state 0 busy_game 50 3 chain0]
  by (simp add: busy_state_simps busy_game_simps)

theorem eleventh_guess_unpaid:
  "games busy_state 0 = Some busy_game \<and> status busy_game = ''active'' \<and>
   min_number busy_game \<le> 70 \<and> 70 \<le> max_number busy_game \<and>
   length (get_player_guesses 0 (Account 2) busy_state) = 10 \<and>
   guess (Account 2) chain0 0 70 busy_state = (Inl (Err 1), busy_state)"
proof -
  have "guess_body (Account 2) chain0 0 70 busy_state = (Inl (Err 1), busy_state)"
    by (simp add: guess_body_checked[of busy_state 0 busy_game] pay_entry_fee_short
        busy_state_simps busy_game_simps)
  then have "guess (Account 2) chain0 0 70 busy_state = (Inl (Err 1), busy_state)"
    unfolding guess_def by (rule define_public_body_Inl)
  then show ?thesis by (simp add: busy_state_simps busy_game_simps)
qed

section \<open>A game without a fee\<close>

lemma free_guess_body_fails:
  assumes "games s game_id = Some g" and "status g = ''active''"
    and "entry_fee g = 0" and "prize_pool g = 0"
  shows "\<exists>e t. guess_body c ch game_id (secret_number g) s = (Inl e, t)"
proof (cases "min_number g \<le> secret_number g \<and> secret_number g \<le> max_number g")
  case False
  with assms show ?thesis by (auto simp: guess_body_def Let_def)
next
  case True
  obtain r t where rec: "record_guess c ch game_id (secret_number g)
      (get_player_guesses game_id c s) (log_of s game_id) s = (r, t)"
    by (cases "record_guess c ch game_id (secret_number g)
      (get_player_guesses game_id c s) (log_of s game_id) s")
  show ?thesis
  proof (cases r)
    case (Inl e)
    with assms True rec show ?thesis
      by (simp add: guess_body_checked pay_entry_fee_zero)
  next
    case (Inr b)
    with assms True rec show ?thesis
      by (simp add: guess_body_checked pay_entry_fee_zero settle_win_nothing)
  qed
qed

text \<open>
  In a reachable state a game without a fee is active, has no winner and an empty pool:
  its pool only ever grows by the fee.
\<close>

lemma free_game_stays_open:
  assumes "games (run cs (init_state bal)) game_id = Some g" and "entry_fee g = 0"
  shows "status g = ''active'' \<and> winner g = None \<and> prize_pool g = 0"
  using wf_state_game(6)[OF wf_state_reachable assms] by simp

text \<open>
  Claim C10 as the code has it. On an active game with fee 0 and an empty pool, a guess
  of the secret never returns \<open>Won\<close>: the call fails and leaves the state as it was.
  When the guess reaches the payout (the secret lies in the range, the caller has
  fewer than ten recorded guesses and the game's list fewer than a thousand entries),
  the payout is a transfer of zero STX, which fails with \<^verbatim>\<open>(err u3)\<close>, and that is
  the error of the call. A caller who already has ten recorded guesses is stopped by
  the capacity check before the payout and gets \<^verbatim>\<open>ERR_TOO_MANY_GUESSES\<close> (108).
\<close>

theorem free_game_cannot_be_won:
  assumes "games s game_id = Some g" and "status g = ''active''"
    and "entry_fee g = 0" and "prize_pool g = 0"
  shows "(\<exists>e. guess c ch game_id (secret_number g) s = (Inl e, s)) \<and>
         (min_number g \<le> secret_number g \<and> secret_number g \<le> max_number g \<and>
          length (get_player_guesses game_id c s) < 10 \<and> length (log_of s game_id) < 1000 \<longrightarrow>
            guess c ch game_id (secret_number g) s = (Inl (Err 3), s)) \<and>
         (min_number g \<le> secret_number g \<and> secret_number g \<le> max_number g \<and>
          10 \<le> length (get_player_guesses game_id c s) \<longrightarrow>
            guess c ch game_id (secret_number g) s = (Inl (Err 108), s))"
proof (intro conjI impI)
  from free_guess_body_fails[OF assms] obtain e t
    where "guess_body c ch game_id (secret_number g) s = (Inl e, t)" by blast
  then have "guess c ch game_id (secret_number g) s = (Inl e, s)"
    unfolding guess_def by (rule define_public_body_Inl)
  then show "\<exists>e. guess c ch game_id (secret_number g) s = (Inl e, s)" ..
next
  assume "min_number g \<le> secret_number g \<and> secret_number g \<le> max_number g \<and>
          length (get_player_guesses game_id c s) < 10 \<and> length (log_of s game_id) < 1000"
  with assms have "\<exists>t. guess_body c ch game_id (secret_number g) s = (Inl (Err 3), t)"
    by (simp add: guess_body_checked pay_entry_fee_zero record_guess_ok settle_win_nothing)
  then show "guess c ch game_id (secret_number g) s = (Inl (Err 3), s)"
    unfolding guess_def by (auto intro: define_public_body_Inl)
next
  assume "min_number g \<le> secret_number g \<and> secret_number g \<le> max_number g \<and>
          10 \<le> length (get_player_guesses game_id c s)"
  with assms have "\<exists>t. guess_body c ch game_id (secret_number g) s = (Inl (Err 108), t)"
    by (simp add: guess_body_checked pay_entry_fee_zero record_guess_player_full
        ERR_TOO_MANY_GUESSES_def)
  then show "guess c ch game_id (secret_number g) s = (Inl (Err 108), s)"
    unfolding guess_def by (auto intro: define_public_body_Inl)
qed

theorem free_game_cannot_be_won_witness:
  "games free_state 0 = Some free_game \<and> status free_game = ''active'' \<and>
   entry_fee free_game = 0 \<and> prize_pool free_game = 0 \<and> secret_number free_game = 2 \<and>
   length (get_player_guesses 0 (Account 2) free_state) < 10 \<and>
   guess (Account 2) chain0 0 2 free_state = (Inl (Err 3), free_state)"
  using free_game_cannot_be_won[of free_state 0 free_game "Account 2" chain0]
  by (simp add: free_state_simps free_game_simps)

theorem free_game_full_player:
  "games free_state 0 = Some free_game \<and> status free_game = ''active'' \<and>
   entry_fee free_game = 0 \<and> prize_pool free_game = 0 \<and> secret_number free_game = 2 \<and>
   guess (Account 3) chain0 0 2 free_state = (Inl (Err 108), free_state)"
proof -
  have "\<exists>t. guess_body (Account 3) chain0 0 2 free_state = (Inl (Err 108), t)"
    by (simp add: guess_body_checked[of free_state 0 free_game] pay_entry_fee_zero
        record_guess_player_full ERR_TOO_MANY_GUESSES_def free_state_simps free_game_simps)
  then have "guess (Account 3) chain0 0 2 free_state = (Inl (Err 108), free_state)"
    unfolding guess_def by (auto intro: define_public_body_Inl)
  then show ?thesis by (simp add: free_state_simps free_game_simps)
qed

section \<open>A guess that is accepted\<close>

lemma reachable_game:
  assumes "s = run cs (init_state bal)" and "games s game_id = Some g"
  shows "min_number g \<le> secret_number g" "secret_number g \<le> max_number g"
    "guess_count g < uint_max" "prize_pool g \<le> balances s Contract"
    "entry_fee g = 0 \<Longrightarrow> prize_pool g = 0"
proof -
  have wf: "wf_state s" using assms(1) by (simp add: wf_state_reachable)
  note g = wf_state_game[OF wf assms(2)]
  show "min_number g \<le> secret_number g" "secret_number g \<le> max_number g"
    by (rule g(1), rule g(2))
  from g(4,5) have "guess_count g \<le> 1000" by simp
  then show "guess_count g < uint_max" by (simp add: uint_max_def)
  have "prize_pool g \<le> locked_in (games s) (total_games s)"
    using locked_in_member[of game_id "total_games s" "games s" g] g(3) assms(2) by simp
  also have "\<dots> \<le> balances s Contract" by (rule wf_state_solvent[OF wf])
  finally show "prize_pool g \<le> balances s Contract" .
  show "prize_pool g = 0" if "entry_fee g = 0" using g(6)[OF that] by simp
qed

text \<open>
  Claim C1 as the code has it. In every reachable state, for an active game with a
  positive entry fee \<open>F\<close> and pool \<open>P\<close>, a guess of the secret by an account that can
  pay the fee, has fewer than ten recorded guesses on the game, while the game's list
  has fewer than a thousand entries and \<open>P + F\<close> is a \<^verbatim>\<open>uint\<close>, returns
  \<^verbatim>\<open>(ok true)\<close>, and the one call charges the fee, pays \<open>P + F\<close> to the caller, and
  stores pool 0, the caller as winner, status \<open>won\<close> and the count plus one. The
  secret lies in the range in every reachable state, so the range check passes.
\<close>

theorem winning_guess_settles:
  assumes "s = run cs (init_state bal)"
    and "games s game_id = Some g" and "status g = ''active''"
    and "0 < entry_fee g" and "entry_fee g \<le> balances s (Account a)"
    and "length (get_player_guesses game_id (Account a) s) < 10"
    and "length (log_of s game_id) < 1000"
    and "prize_pool g + entry_fee g \<le> uint_max"
  shows "\<exists>s'. guess (Account a) ch game_id (secret_number g) s = (Inr True, s') \<and>
           games s' game_id =
             Some (g\<lparr>prize_pool := 0, guess_count := guess_count g + 1,
                     winner := Some (Account a), status := ''won''\<rparr>) \<and>
           balances s' (Account a)
             = balances s (Account a) - entry_fee g + (prize_pool g + entry_fee g) \<and>
           balances s' Contract = balances s Contract - prize_pool g \<and>
           total_games s' = total_games s"
proof -
  note r = reachable_game[OF assms(1,2)]
  from assms(4,5) have pay: "entry_fee g = 0 \<or> entry_fee g \<le> balances s (Account a)"
    and pos: "0 < prize_pool g + entry_fee g" by simp_all
  note ok = guess_win_ok[OF assms(2,3) r(1,2) pay assms(6,7) pos assms(8) r(4,3), of ch]
  show ?thesis
    using assms(4) r(4) by (simp add: ok fee_paid_def)
qed

theorem winning_guess_settles_witness:
  "open_state = run [CreateGame 0 chain0 42 42 300] (init_state funded) \<and>
   games open_state 0 = Some single_game \<and> status single_game = ''active'' \<and>
   secret_number single_game = 42 \<and> entry_fee single_game = 300 \<and>
   prize_pool single_game = 0 \<and> balances open_state (Account 2) = 1000 \<and>
   (\<exists>s'. guess (Account 2) chain0 0 42 open_state = (Inr True, s') \<and>
      games s' 0 = Some (single_game\<lparr>prize_pool := 0, guess_count := 1,
                          winner := Some (Account 2), status := ''won''\<rparr>) \<and>
      balances s' (Account 2) = 1000 \<and> balances s' Contract = 0)"
proof -
  have facts: "games open_state 0 = Some single_game" "status single_game = ''active''"
    "secret_number single_game = 42" "entry_fee single_game = 300"
    "prize_pool single_game = 0" "balances open_state (Account 2) = 1000"
    by (simp_all add: example_states example_games funded_def)
  have "\<exists>s'. guess (Account 2) chain0 0 42 open_state = (Inr True, s') \<and>
      games s' 0 = Some (single_game\<lparr>prize_pool := 0, guess_count := 1,
                          winner := Some (Account 2), status := ''won''\<rparr>) \<and>
      balances s' (Account 2) = 1000 \<and> balances s' Contract = 0"
    using winning_guess_settles[OF open_state_def, of 0 single_game 2 chain0]
    by (simp add: example_states example_games funded_def get_player_guesses_def log_of_def
        small_uint) blast
  with facts open_state_def show ?thesis by blast
qed

theorem winning_guess_refused:
  "games broke_state 0 = Some single_game \<and> status single_game = ''active'' \<and>
   secret_number single_game = 42 \<and> min_number single_game \<le> 42 \<and>
   42 \<le> max_number single_game \<and>
   guess (Account 2) chain0 0 42 broke_state = (Inl (Err 1), broke_state) \<and>
   games busy_state 0 = Some busy_game \<and> status busy_game = ''active'' \<and>
   secret_number busy_game = 2 \<and> min_number busy_game \<le> 2 \<and> 2 \<le> max_number busy_game \<and>
   entry_fee busy_game \<le> balances busy_state (Account 3) \<and>
   guess (Account 3) chain0 0 2 busy_state = (Inl (Err 108), busy_state)"
proof -
  have "guess_body (Account 2) chain0 0 42 broke_state = (Inl (Err 1), broke_state)"
    by (simp add: guess_body_checked[of broke_state 0 single_game]
        pay_entry_fee_short example_states example_games broke_def)
  then have unpaid: "guess (Account 2) chain0 0 42 broke_state = (Inl (Err 1), broke_state)"
    unfolding guess_def by (rule define_public_body_Inl)
  have "\<exists>t. guess_body (Account 3) chain0 0 2 busy_state = (Inl (Err 108), t)"
    by (simp add: guess_body_checked[of busy_state 0 busy_game] pay_entry_fee_ok
        record_guess_player_full ERR_TOO_MANY_GUESSES_def busy_state_simps busy_game_simps)
  then have full: "guess (Account 3) chain0 0 2 busy_state = (Inl (Err 108), busy_state)"
    unfolding guess_def by (auto intro: define_public_body_Inl)
  from unpaid full show ?thesis
    by (simp add: example_states example_games busy_state_simps busy_game_simps)
qed

text \<open>
  Claim C4 as the code has it. In every reachable state, for an active game with pool
  \<open>P\<close> and fee \<open>F\<close>, an in-range guess that is not the secret, by an account that can
  pay the fee (or on a game without a fee) and has fewer than ten recorded guesses on
  the game, while the game's list has fewer than a thousand entries and \<open>P + F\<close> is a
  \<^verbatim>\<open>uint\<close>, returns \<^verbatim>\<open>(ok false)\<close> and stores the game with pool \<open>P + F\<close> and the
  count plus one, every other field of the record as it was.
\<close>

theorem losing_guess_grows_pool:
  assumes "s = run cs (init_state bal)"
    and "games s game_id = Some g" and "status g = ''active''"
    and "min_number g \<le> n" and "n \<le> max_number g" and "n \<noteq> secret_number g"
    and "entry_fee g = 0 \<or> entry_fee g \<le> balances s (Account a)"
    and "length (get_player_guesses game_id (Account a) s) < 10"
    and "length (log_of s game_id) < 1000"
    and "prize_pool g + entry_fee g \<le> uint_max"
  shows "\<exists>s'. guess (Account a) ch game_id n s = (Inr False, s') \<and>
           games s' game_id =
             Some (g\<lparr>prize_pool := prize_pool g + entry_fee g,
                     guess_count := guess_count g + 1\<rparr>) \<and>
           balances s' Contract = balances s Contract + entry_fee g \<and>
           total_games s' = total_games s"
proof -
  note r = reachable_game[OF assms(1,2)]
  note ok = guess_continue_ok[OF assms(2-9) assms(10) r(3), of ch]
  show ?thesis
    by (simp add: ok fee_paid_def)
qed

theorem losing_guess_grows_pool_witness:
  "wide_state = run [CreateGame 0 chain0 1 100 300] (init_state funded) \<and>
   games wide_state 0 = Some wide_game \<and> status wide_game = ''active'' \<and>
   secret_number wide_game = 2 \<and> entry_fee wide_game = 300 \<and> prize_pool wide_game = 0 \<and>
   (\<exists>s'. guess (Account 2) chain0 0 50 wide_state = (Inr False, s') \<and>
      games s' 0 = Some (wide_game\<lparr>prize_pool := 300, guess_count := 1\<rparr>) \<and>
      balances s' Contract = 300)"
proof -
  have facts: "games wide_state 0 = Some wide_game" "status wide_game = ''active''"
    "secret_number wide_game = 2" "entry_fee wide_game = 300" "prize_pool wide_game = 0"
    by (simp_all add: example_states example_games)
  have "\<exists>s'. guess (Account 2) chain0 0 50 wide_state = (Inr False, s') \<and>
      games s' 0 = Some (wide_game\<lparr>prize_pool := 300, guess_count := 1\<rparr>) \<and>
      balances s' Contract = 300"
    using losing_guess_grows_pool[OF wide_state_def, of 0 wide_game 50 2 chain0]
    by (simp add: example_states example_games funded_def get_player_guesses_def log_of_def
        small_uint) blast
  with facts wide_state_def show ?thesis by blast
qed

theorem losing_guess_rejected:
  "games busy_state 0 = Some busy_game \<and> status busy_game = ''active'' \<and>
   secret_number busy_game = 2 \<and> min_number busy_game \<le> 50 \<and> 71 \<le> max_number busy_game \<and>
   entry_fee busy_game \<le> balances busy_state (Account 3) \<and>
   guess (Account 3) chain0 0 50 busy_state = (Inl (Err 108), busy_state) \<and>
   balances busy_state (Account 2) < entry_fee busy_game \<and>
   guess (Account 2) chain0 0 71 busy_state = (Inl (Err 1), busy_state)"
proof -
  have "\<exists>t. guess_body (Account 3) chain0 0 50 busy_state = (Inl (Err 108), t)"
    by (simp add: guess_body_checked[of busy_state 0 busy_game] pay_entry_fee_ok
        record_guess_player_full ERR_TOO_MANY_GUESSES_def busy_state_simps busy_game_simps)
  then have full: "guess (Account 3) chain0 0 50 busy_state = (Inl (Err 108), busy_state)"
    unfolding guess_def by (auto intro: define_public_body_Inl)
  have "guess_body (Account 2) chain0 0 71 busy_state = (Inl (Err 1), busy_state)"
    by (simp add: guess_body_checked[of busy_state 0 busy_game] pay_entry_fee_short
        busy_state_simps busy_game_simps)
  then have unpaid: "guess (Account 2) chain0 0 71 busy_state = (Inl (Err 1), busy_state)"
    unfolding guess_def by (rule define_public_body_Inl)
  from full unpaid show ?thesis by (simp add: busy_state_simps busy_game_simps)
qed

end
